theory Spec2Isabelle
  imports Complex_Main "HOL-Library.Word" "HOL-Library.Monad_Syntax"
begin

section \<open>Shared C-level notions\<close>

text \<open>
  The three programs are C programs for a platform with 32-bit \<open>int\<close>.  Values of type
  \<open>int\<close> that come from outside (the result of \<open>atoi\<close>) are 32-bit words read with
  \<open>sint\<close>; inside the computation routines they are mathematical integers.  There a
  loop counter runs from its start to the bound it is compared with, and the boundaries
  of the work items lie between \<open>0\<close> and \<open>n\<close>, so for arguments in the range of \<open>int\<close>
  no operation of the source overflows.

  Values of type \<open>double\<close> are kept abstract: every routine takes the arithmetic of
  \<open>double\<close> as a parameter, a record of constants and operations.  Nothing is assumed
  about these operations (no associativity, no neutral element) unless a theorem says so,
  so each operation of the source is one application of an operation of the record, in
  the order in which the source evaluates it.
\<close>

record 'd aritmetica =
  d_cero :: 'd
  d_medio :: 'd
  d_uno :: 'd
  d_cuatro :: 'd
  d_pi_referencia :: 'd
  d_de_int :: "int \<Rightarrow> 'd"
  d_suma :: "'d \<Rightarrow> 'd \<Rightarrow> 'd"
  d_resta :: "'d \<Rightarrow> 'd \<Rightarrow> 'd"
  d_mult :: "'d \<Rightarrow> 'd \<Rightarrow> 'd"
  d_div :: "'d \<Rightarrow> 'd \<Rightarrow> 'd"
  d_fabs :: "'d \<Rightarrow> 'd"

text \<open>The exact arithmetic of the reals, used to instantiate the parameter.\<close>

definition aritmetica_real :: "real aritmetica" where
  "aritmetica_real =
     \<lparr>d_cero = 0, d_medio = 1 / 2, d_uno = 1, d_cuatro = 4,
      d_pi_referencia = 3.141592653589793238462643,
      d_de_int = real_of_int, d_suma = (+), d_resta = (-), d_mult = (*), d_div = (/),
      d_fabs = abs\<rparr>"

text \<open>Integer division and remainder of C: the quotient is truncated towards zero.\<close>

definition c_div :: "int \<Rightarrow> int \<Rightarrow> int" where
  "c_div a b = sgn a * sgn b * (\<bar>a\<bar> div \<bar>b\<bar>)"

definition c_mod :: "int \<Rightarrow> int \<Rightarrow> int" where
  "c_mod a b = a - b * c_div a b"

datatype salida = EXIT_SUCCESS | EXIT_FAILURE

section \<open>pi\_p.c: the parallel computation\<close>

record 'd DatosHilo =
  indice_inicio :: int
  indice_fin :: int
  paso :: 'd

text \<open>
  What the program does that can be observed, in the order in which it happens: the
  lines written to the error stream and to standard output, and the calls of
  \<open>pthread_create\<close> (with the work item handed to the thread) and \<open>pthread_join\<close>.
\<close>

datatype 'd evento =
    Advertencia_hilos_invalido int
  | Error_valor_n
  | Uso string
  | Error_reservar_memoria
  | Error_crear_hilo int int
  | Error_pthread_join int int
  | Advertencia_retorno_NULL int
  | Crear int "'d DatosHilo"
  | Join int
  | Imprime_n int
  | Imprime_H int
  | Imprime_pi 'd
  | Imprime_error_absoluto 'd
  | Imprime_tiempo 'd

text \<open>
  What the run-time system decides: whether each \<open>malloc\<close> succeeds, the code that
  \<open>pthread_create\<close> and \<open>pthread_join\<close> return for thread \<open>h\<close>, and the two readings of
  the clock.
\<close>

record 'd entorno =
  malloc_hilos :: bool
  malloc_datos_hilos :: bool
  codigo_create :: "int \<Rightarrow> int"
  codigo_join :: "int \<Rightarrow> int"
  malloc_resultado :: "int \<Rightarrow> bool"
  tiempo_inicio :: 'd
  tiempo_fin :: 'd

text \<open>The loop of \<open>trabajo_suma_parcial\<close>, with its local accumulator.\<close>

function bucle_suma :: "'d aritmetica \<Rightarrow> 'd DatosHilo \<Rightarrow> int \<Rightarrow> 'd \<Rightarrow> 'd" where
  "bucle_suma ar datos i suma_local =
     (if i < indice_fin datos then
        let x = d_mult ar (paso datos) (d_suma ar (d_de_int ar i) (d_medio ar))
        in bucle_suma ar datos (i + 1)
             (d_suma ar suma_local
                (d_div ar (d_cuatro ar) (d_suma ar (d_uno ar) (d_mult ar x x))))
      else suma_local)"
  by pat_completeness auto
termination
  by (relation "measure (\<lambda>(ar, datos, i, suma_local). nat (indice_fin datos - i))") auto

text \<open>
  A thread's function.  The value passed to \<open>pthread_exit\<close> is \<open>None\<close> for the null
  pointer and \<open>Some\<close> of the stored sum otherwise.  The flag says whether the thread's
  \<open>malloc\<close> succeeds.
\<close>

definition trabajo_suma_parcial :: "'d aritmetica \<Rightarrow> bool \<Rightarrow> 'd DatosHilo \<Rightarrow> 'd option" where
  "trabajo_suma_parcial ar malloc_ok datos =
     (let suma_local = bucle_suma ar datos (indice_inicio datos) (d_cero ar)
      in if \<not> malloc_ok then None else Some suma_local)"

text \<open>
  The first loop of \<open>calcular_pi_paralelo\<close>: it fills \<open>datos_hilos[h]\<close> and creates thread
  \<open>h\<close>.  When a creation fails it prints the error, joins the threads \<open>0..h-1\<close> and
  leaves the program with \<open>exit(EXIT_FAILURE)\<close>.
\<close>

function bucle_crear ::
  "'d entorno \<Rightarrow> int \<Rightarrow> int \<Rightarrow> int \<Rightarrow> 'd \<Rightarrow> int \<Rightarrow> int \<Rightarrow> 'd DatosHilo list \<Rightarrow> 'd evento list
   \<Rightarrow> 'd evento list \<times> (salida + 'd DatosHilo list)" where
  "bucle_crear en numero_hilos tam_bloque resto p h inicio_actual datos_hilos traza =
     (if h < numero_hilos then
        let extra = (if h < resto then 1 else 0);
            d = \<lparr>indice_inicio = inicio_actual,
                 indice_fin = inicio_actual + tam_bloque + extra,
                 paso = p\<rparr>;
            codigo = codigo_create en h
        in if codigo \<noteq> 0 then
             (traza @ [Error_crear_hilo h codigo] @ map Join [0..h - 1], Inl EXIT_FAILURE)
           else bucle_crear en numero_hilos tam_bloque resto p (h + 1) (indice_fin d)
                  (datos_hilos @ [d]) (traza @ [Crear h d])
      else (traza, Inr datos_hilos))"
  by pat_completeness auto
termination
  by (relation "measure (\<lambda>(en, numero_hilos, tam_bloque, resto, p, h, r). nat (numero_hilos - h))")
     auto

text \<open>
  The second loop: it joins thread \<open>h\<close> and adds the sum the thread returned.  A join
  that fails and a thread that returned the null pointer are reported and skipped.
  Thread \<open>h\<close> has run \<open>trabajo_suma_parcial\<close> on \<open>datos_hilos[h]\<close>, which no other
  thread reads or writes.
\<close>

function bucle_join ::
  "'d aritmetica \<Rightarrow> 'd entorno \<Rightarrow> int \<Rightarrow> 'd DatosHilo list \<Rightarrow> int \<Rightarrow> 'd \<Rightarrow> 'd evento list
   \<Rightarrow> 'd evento list \<times> 'd" where
  "bucle_join ar en numero_hilos datos_hilos h suma_global traza =
     (if h < numero_hilos then
        let codigo = codigo_join en h
        in if codigo \<noteq> 0 then
             bucle_join ar en numero_hilos datos_hilos (h + 1) suma_global
               (traza @ [Join h, Error_pthread_join h codigo])
           else
             (case trabajo_suma_parcial ar (malloc_resultado en h) (datos_hilos ! nat h) of
                Some suma_parcial \<Rightarrow>
                  bucle_join ar en numero_hilos datos_hilos (h + 1)
                    (d_suma ar suma_global suma_parcial) (traza @ [Join h])
              | None \<Rightarrow>
                  bucle_join ar en numero_hilos datos_hilos (h + 1) suma_global
                    (traza @ [Join h, Advertencia_retorno_NULL h]))
      else (traza, suma_global))"
  by pat_completeness auto
termination
  by (relation "measure (\<lambda>(ar, en, numero_hilos, datos_hilos, h, r). nat (numero_hilos - h))")
     auto

definition calcular_pi_paralelo ::
  "'d aritmetica \<Rightarrow> 'd entorno \<Rightarrow> int \<Rightarrow> int \<Rightarrow> 'd evento list \<times> (salida + 'd)" where
  "calcular_pi_paralelo ar en numero_intervalos numero_hilos =
     (let p = d_div ar (d_uno ar) (d_de_int ar numero_intervalos)
      in if \<not> malloc_hilos en \<or> \<not> malloc_datos_hilos en then
           ([Error_reservar_memoria], Inl EXIT_FAILURE)
         else
           let tam_bloque = c_div numero_intervalos numero_hilos;
               resto = c_mod numero_intervalos numero_hilos
           in case bucle_crear en numero_hilos tam_bloque resto p 0 0 [] [] of
                (traza, Inl e) \<Rightarrow> (traza, Inl e)
              | (traza, Inr datos_hilos) \<Rightarrow>
                  (case bucle_join ar en numero_hilos datos_hilos 0 (d_cero ar) traza of
                     (traza', suma_global) \<Rightarrow> (traza', Inr (d_mult ar p suma_global))))"

text \<open>
  \<open>atoi\<close> belongs to the C library, so \<open>main\<close> takes it as a parameter: a function from
  the argument string to a 32-bit \<open>int\<close>.  \<open>argv\<close> is the argument vector, the program's
  name first (\<open>argc\<close> is its length and is at least 1).
\<close>

definition N_INTERVALOS_POR_DEFECTO :: "32 word" where
  "N_INTERVALOS_POR_DEFECTO = 2000000000"

definition HILOS_POR_DEFECTO :: "32 word" where
  "HILOS_POR_DEFECTO = 4"

definition main_pi_p ::
  "(string \<Rightarrow> 32 word) \<Rightarrow> 'd aritmetica \<Rightarrow> 'd entorno \<Rightarrow> string list \<Rightarrow> 'd evento list \<times> salida" where
  "main_pi_p atoi ar en argv =
     (let numero_hilos0 = (if length argv \<ge> 2 then atoi (argv ! 1) else HILOS_POR_DEFECTO);
          numero_intervalos =
            (if length argv \<ge> 3 then atoi (argv ! 2) else N_INTERVALOS_POR_DEFECTO);
          (traza0, numero_hilos) =
            (if sint numero_hilos0 \<le> 0
             then ([Advertencia_hilos_invalido (sint numero_hilos0)], 1)
             else ([], numero_hilos0))
      in if sint numero_intervalos \<le> 0 \<or> sint numero_intervalos > 2147483647 then
           (traza0 @ [Error_valor_n, Uso (argv ! 0)], EXIT_FAILURE)
         else
           (case calcular_pi_paralelo ar en (sint numero_intervalos) (sint numero_hilos) of
              (traza, Inl e) \<Rightarrow> (traza0 @ traza, e)
            | (traza, Inr pi_aproximado) \<Rightarrow>
                (traza0 @ traza @
                 [Imprime_n (sint numero_intervalos),
                  Imprime_H (sint numero_hilos),
                  Imprime_pi pi_aproximado,
                  Imprime_error_absoluto
                    (d_fabs ar (d_resta ar pi_aproximado (d_pi_referencia ar))),
                  Imprime_tiempo (d_resta ar (tiempo_fin en) (tiempo_inicio en))],
                 EXIT_SUCCESS)))"

text \<open>
  The \<open>atoi\<close> of the GNU C library on a platform with 64-bit \<open>long\<close>: the value of
  \<open>strtol\<close> in base 10 (white space, an optional sign, the leading digits; saturated at
  the range of \<open>long\<close>), converted to \<open>int\<close> by keeping the low 32 bits.
\<close>

definition es_espacio :: "char \<Rightarrow> bool" where
  "es_espacio c = (of_char c = (32::nat) \<or> (9 \<le> (of_char c :: nat) \<and> (of_char c :: nat) \<le> 13))"

definition es_digito :: "char \<Rightarrow> bool" where
  "es_digito c = (48 \<le> (of_char c :: nat) \<and> (of_char c :: nat) \<le> 57)"

fun valor_digitos :: "int \<Rightarrow> string \<Rightarrow> int" where
  "valor_digitos acc [] = acc"
| "valor_digitos acc (c # cs) =
     (if es_digito c then valor_digitos (10 * acc + (int (of_char c) - 48)) cs else acc)"

definition strtol_base10 :: "string \<Rightarrow> int" where
  "strtol_base10 s =
     (case dropWhile es_espacio s of
        [] \<Rightarrow> 0
      | c # cs \<Rightarrow>
          let v = (if c = CHR ''-'' then - valor_digitos 0 cs
                   else if c = CHR ''+'' then valor_digitos 0 cs
                   else valor_digitos 0 (c # cs))
          in max (- (2 ^ 63)) (min (2 ^ 63 - 1) v))"

definition atoi_glibc :: "string \<Rightarrow> 32 word" where
  "atoi_glibc s = word_of_int (strtol_base10 s)"

section \<open>pi.c: the sequential computation\<close>

definition funcion_integrando :: "'d aritmetica \<Rightarrow> 'd \<Rightarrow> 'd" where
  "funcion_integrando ar x = d_div ar (d_cuatro ar) (d_suma ar (d_uno ar) (d_mult ar x x))"

function bucle_secuencial :: "'d aritmetica \<Rightarrow> int \<Rightarrow> 'd \<Rightarrow> int \<Rightarrow> 'd \<Rightarrow> 'd" where
  "bucle_secuencial ar numero_intervalos p i suma =
     (if i < numero_intervalos then
        let x_punto_medio = d_mult ar p (d_suma ar (d_de_int ar i) (d_medio ar))
        in bucle_secuencial ar numero_intervalos p (i + 1)
             (d_suma ar suma (funcion_integrando ar x_punto_medio))
      else suma)"
  by pat_completeness auto
termination
  by (relation "measure (\<lambda>(ar, numero_intervalos, p, i, suma). nat (numero_intervalos - i))")
     auto

definition calcular_pi_secuencial :: "'d aritmetica \<Rightarrow> int \<Rightarrow> 'd" where
  "calcular_pi_secuencial ar numero_intervalos =
     (let p = d_div ar (d_uno ar) (d_de_int ar numero_intervalos);
          suma = bucle_secuencial ar numero_intervalos p 0 (d_cero ar)
      in d_mult ar p suma)"

section \<open>fibonacci.c: the worker thread\<close>

text \<open>
  The shared array is a list of 64-bit words (\<open>unsigned long long\<close>), of the length that
  \<open>main\<close> allocated and with whatever contents \<open>malloc\<close> left there.  An access outside
  the array has no defined behaviour in C: the model returns \<open>None\<close> for it.
\<close>

type_synonym tipo_fibonacci = "64 word"

definition leer :: "tipo_fibonacci list \<Rightarrow> int \<Rightarrow> tipo_fibonacci option" where
  "leer arreglo i = (if 0 \<le> i \<and> nat i < length arreglo then Some (arreglo ! nat i) else None)"

definition escribir :: "tipo_fibonacci list \<Rightarrow> int \<Rightarrow> tipo_fibonacci \<Rightarrow> tipo_fibonacci list option" where
  "escribir arreglo i v =
     (if 0 \<le> i \<and> nat i < length arreglo then Some (arreglo[nat i := v]) else None)"

function bucle_fibonacci :: "tipo_fibonacci list \<Rightarrow> int \<Rightarrow> int \<Rightarrow> tipo_fibonacci list option" where
  "bucle_fibonacci arreglo cantidad i =
     (if i < cantidad then
        do {
          a \<leftarrow> leer arreglo (i - 1);
          b \<leftarrow> leer arreglo (i - 2);
          arreglo' \<leftarrow> escribir arreglo i (a + b);
          bucle_fibonacci arreglo' cantidad (i + 1)
        }
      else Some arreglo)"
  by pat_completeness auto
termination
  by (relation "measure (\<lambda>(arreglo, cantidad, i). nat (cantidad - i))") auto

definition trabajador_fibonacci :: "tipo_fibonacci list \<Rightarrow> int \<Rightarrow> tipo_fibonacci list option" where
  "trabajador_fibonacci arreglo cantidad =
     (if cantidad \<le> 0 then Some arreglo
      else do {
        a1 \<leftarrow> (if cantidad \<ge> 1 then escribir arreglo 0 0 else Some arreglo);
        a2 \<leftarrow> (if cantidad \<ge> 2 then escribir a1 1 1 else Some a1);
        bucle_fibonacci a2 cantidad 2
      })"

text \<open>The Fibonacci numbers, with the convention of the program's header.\<close>

fun F :: "nat \<Rightarrow> nat" where
  "F 0 = 0"
| "F (Suc 0) = 1"
| "F (Suc (Suc n)) = F (Suc n) + F n"

section \<open>Notions used to state the properties\<close>

text \<open>
  These are not functions of the programs: they are the closed forms in which the
  theorems describe what the loops compute.

  \<open>elemento b r p k\<close> is work item \<open>k\<close> of a partition with block size \<open>b\<close> and remainder
  \<open>r\<close>: it starts after \<open>k\<close> blocks and after one extra element for each of the first
  \<open>r\<close> items before it.
\<close>

definition elemento :: "int \<Rightarrow> int \<Rightarrow> 'd \<Rightarrow> int \<Rightarrow> 'd DatosHilo" where
  "elemento b r p k =
     \<lparr>indice_inicio = k * b + min k r, indice_fin = (k + 1) * b + min (k + 1) r, paso = p\<rparr>"

text \<open>
  The partial sum of a work item: the terms \<open>4 / (1 + x * x)\<close> at
  \<open>x = paso * (i + 0.5)\<close>, added to \<open>0.0\<close> one by one in increasing order of \<open>i\<close>.
\<close>

definition suma_parcial_de :: "'d aritmetica \<Rightarrow> 'd DatosHilo \<Rightarrow> 'd" where
  "suma_parcial_de ar d =
     foldl (\<lambda>s i. d_suma ar s
               (funcion_integrando ar (d_mult ar (paso d) (d_suma ar (d_de_int ar i) (d_medio ar)))))
       (d_cero ar) [indice_inicio d..indice_fin d - 1]"

text \<open>
  Thread \<open>k\<close> contributes when its join succeeds and it returned a sum.  Otherwise the
  coordinator prints one line for it.
\<close>

definition presente :: "'d entorno \<Rightarrow> int \<Rightarrow> bool" where
  "presente en k = (codigo_join en k = 0 \<and> malloc_resultado en k)"

definition avisos :: "'d entorno \<Rightarrow> int \<Rightarrow> 'd evento list" where
  "avisos en k =
     (if codigo_join en k \<noteq> 0 then [Error_pthread_join k (codigo_join en k)]
      else if malloc_resultado en k then [] else [Advertencia_retorno_NULL k])"

section \<open>Environments used to instantiate the theorems\<close>

text \<open>An environment in which every allocation, creation and join succeeds.\<close>

definition entorno_sin_fallos :: "real entorno" where
  "entorno_sin_fallos =
     \<lparr>malloc_hilos = True, malloc_datos_hilos = True, codigo_create = (\<lambda>h. 0),
      codigo_join = (\<lambda>h. 0), malloc_resultado = (\<lambda>h. True),
      tiempo_inicio = 0, tiempo_fin = 1\<rparr>"

text \<open>
  An environment in which the join of thread 1 fails and thread 2 cannot allocate its
  result, and one in which the creation of thread 2 fails.
\<close>

definition entorno_fallos_locales :: "real entorno" where
  "entorno_fallos_locales =
     \<lparr>malloc_hilos = True, malloc_datos_hilos = True, codigo_create = (\<lambda>h. 0),
      codigo_join = (\<lambda>h. if h = 1 then 3 else 0), malloc_resultado = (\<lambda>h. h \<noteq> 2),
      tiempo_inicio = 0, tiempo_fin = 1\<rparr>"

definition entorno_fallo_crear :: "real entorno" where
  "entorno_fallo_crear =
     \<lparr>malloc_hilos = True, malloc_datos_hilos = True,
      codigo_create = (\<lambda>h. if h = 2 then 11 else 0),
      codigo_join = (\<lambda>h. 0), malloc_resultado = (\<lambda>h. True),
      tiempo_inicio = 0, tiempo_fin = 1\<rparr>"

section \<open>The worker of pi\_p.c\<close>

text \<open>
  The loops are recursive functions whose defining equations would rewrite for ever:
  they are unfolded by hand, one iteration at a time.
\<close>

declare bucle_suma.simps [simp del]
declare bucle_secuencial.simps [simp del]
declare bucle_crear.simps [simp del]
declare bucle_join.simps [simp del]
declare bucle_fibonacci.simps [simp del]

lemma bucle_suma_foldl:
  "bucle_suma ar datos i acc =
     foldl (\<lambda>s k. d_suma ar s
               (funcion_integrando ar (d_mult ar (paso datos) (d_suma ar (d_de_int ar k) (d_medio ar)))))
       acc [i..indice_fin datos - 1]"
proof (induction ar datos i acc rule: bucle_suma.induct)
  case (1 ar datos i suma_local)
  show ?case
  proof (cases "i < indice_fin datos")
    case True
    then have "[i..indice_fin datos - 1] = i # [i + 1..indice_fin datos - 1]"
      by (simp add: upto_rec1)
    with True "1.IH" show ?thesis
      by (subst bucle_suma.simps) (simp add: Let_def funcion_integrando_def)
  next
    case False
    then show ?thesis
      by (subst bucle_suma.simps) simp
  qed
qed

lemma foldl_suma_real:
  "foldl (\<lambda>s k. s + g k) acc ks = acc + sum_list (map g ks)" for acc :: real
  by (induction ks arbitrary: acc) simp_all

lemma upto_set_int: "{a..b - 1} = {a..<b}" for a b :: int
  by auto

lemma sum_upto_lista:
  "sum_list (map g [a..b - 1]) = sum g {a..<b}" for g :: "int \<Rightarrow> real"
  by (simp add: sum_list_distinct_conv_sum_set upto_set_int)

text \<open>
  Claim C3.  A worker whose allocation succeeds returns the sum, over the indices \<open>i\<close>
  from \<open>indice_inicio\<close> to \<open>indice_fin - 1\<close> in increasing order, of
  \<open>4 / (1 + x * x)\<close> at \<open>x = paso * (i + 0.5)\<close>, accumulated from \<open>0.0\<close> in its own local
  variable; every operation is one of \<open>double\<close>, in the order of the source.  An empty
  range gives \<open>0.0\<close>.  In exact real arithmetic the value is the sum
  \<open>\<Sum>i = a..<b. 4 / (1 + (q * (i + 1/2))\<^sup>2)\<close>.
\<close>

theorem trabajo_suma_parcial_correcto:
  "trabajo_suma_parcial ar True datos =
     Some (foldl (\<lambda>s i. d_suma ar s
                    (funcion_integrando ar
                       (d_mult ar (paso datos) (d_suma ar (d_de_int ar i) (d_medio ar)))))
             (d_cero ar) [indice_inicio datos..indice_fin datos - 1])
   \<and> trabajo_suma_parcial ar True \<lparr>indice_inicio = a, indice_fin = a, paso = p\<rparr> = Some (d_cero ar)
   \<and> trabajo_suma_parcial aritmetica_real True \<lparr>indice_inicio = a, indice_fin = b, paso = q\<rparr> =
       Some (\<Sum>i = a..<b. 4 / (1 + (q * (real_of_int i + 1 / 2))\<^sup>2))"
proof (intro conjI)
  show "trabajo_suma_parcial ar True datos =
     Some (foldl (\<lambda>s i. d_suma ar s
                    (funcion_integrando ar
                       (d_mult ar (paso datos) (d_suma ar (d_de_int ar i) (d_medio ar)))))
             (d_cero ar) [indice_inicio datos..indice_fin datos - 1])"
    by (simp add: trabajo_suma_parcial_def bucle_suma_foldl)
  show "trabajo_suma_parcial ar True \<lparr>indice_inicio = a, indice_fin = a, paso = p\<rparr> = Some (d_cero ar)"
    by (simp add: trabajo_suma_parcial_def bucle_suma_foldl)
  have "bucle_suma aritmetica_real \<lparr>indice_inicio = a, indice_fin = b, paso = q\<rparr> a 0 =
       0 + sum_list (map (\<lambda>i. 4 / (1 + (q * (real_of_int i + 1 / 2))\<^sup>2)) [a..b - 1])"
    unfolding bucle_suma_foldl funcion_integrando_def
    by (simp only: aritmetica_real_def aritmetica.simps DatosHilo.simps foldl_suma_real power2_eq_square)
  then show "trabajo_suma_parcial aritmetica_real True \<lparr>indice_inicio = a, indice_fin = b, paso = q\<rparr> =
       Some (\<Sum>i = a..<b. 4 / (1 + (q * (real_of_int i + 1 / 2))\<^sup>2))"
    by (simp add: trabajo_suma_parcial_def sum_upto_lista aritmetica_real_def)
qed

theorem trabajo_suma_parcial_correcto_witness:
  "trabajo_suma_parcial aritmetica_real True \<lparr>indice_inicio = 0, indice_fin = 2, paso = 1 / 2\<rparr> =
     Some (2688 / 425)
   \<and> trabajo_suma_parcial aritmetica_real True \<lparr>indice_inicio = 5, indice_fin = 5, paso = 1 / 2\<rparr> =
     Some 0"
  using trabajo_suma_parcial_correcto [where ar = aritmetica_real
      and datos = "\<lparr>indice_inicio = 0, indice_fin = 2, paso = 1 / 2\<rparr>" and a = 5 and p = "1 / 2"]
  by (simp add: aritmetica_real_def funcion_integrando_def upto_rec1)

section \<open>The partition\<close>

lemma elemento_sel [simp]:
  "indice_inicio (elemento b r p k) = k * b + min k r"
  "indice_fin (elemento b r p k) = (k + 1) * b + min (k + 1) r"
  "paso (elemento b r p k) = p"
  by (simp_all add: elemento_def)

lemma bucle_crear_exito:
  "(\<forall>k. h \<le> k \<and> k < numero_hilos \<longrightarrow> codigo_create en k = 0) \<Longrightarrow>
   inicio_actual = h * tam_bloque + min h resto \<Longrightarrow>
   bucle_crear en numero_hilos tam_bloque resto p h inicio_actual datos_hilos traza =
     (traza @ map (\<lambda>k. Crear k (elemento tam_bloque resto p k)) [h..numero_hilos - 1],
      Inr (datos_hilos @ map (elemento tam_bloque resto p) [h..numero_hilos - 1]))"
proof (induction en numero_hilos tam_bloque resto p h inicio_actual datos_hilos traza
       rule: bucle_crear.induct)
  case (1 en numero_hilos tam_bloque resto p h inicio_actual datos_hilos traza)
  show ?case
  proof (cases "h < numero_hilos")
    case False
    then show ?thesis by (subst bucle_crear.simps) simp
  next
    case True
    let ?d = "\<lparr>indice_inicio = inicio_actual,
               indice_fin = inicio_actual + tam_bloque + (if h < resto then 1 else 0), paso = p\<rparr>"
    from True "1.prems"(1) have c: "codigo_create en h = 0" by simp
    have d: "?d = elemento tam_bloque resto p h"
      using "1.prems"(2) by (simp add: elemento_def algebra_simps min_def)
    have sig: "indice_fin ?d = (h + 1) * tam_bloque + min (h + 1) resto"
      using "1.prems"(2) by (simp add: algebra_simps min_def)
    have todos: "\<forall>k. h + 1 \<le> k \<and> k < numero_hilos \<longrightarrow> codigo_create en k = 0"
      using "1.prems"(1) by simp
    have lista: "[h..numero_hilos - 1] = h # [h + 1..numero_hilos - 1]"
      using True by (simp add: upto_rec1)
    have "bucle_crear en numero_hilos tam_bloque resto p h inicio_actual datos_hilos traza =
          bucle_crear en numero_hilos tam_bloque resto p (h + 1) (indice_fin ?d)
            (datos_hilos @ [?d]) (traza @ [Crear h ?d])"
      using True c by (subst bucle_crear.simps) (simp add: Let_def)
    also have "\<dots> = ((traza @ [Crear h ?d]) @
                    map (\<lambda>k. Crear k (elemento tam_bloque resto p k)) [h + 1..numero_hilos - 1],
                  Inr ((datos_hilos @ [?d]) @
                    map (elemento tam_bloque resto p) [h + 1..numero_hilos - 1]))"
      using c by (intro "1.IH" [OF True refl refl refl _ todos sig]) simp
    finally show ?thesis
      unfolding lista d by simp
  qed
qed


lemma c_div_positivos: "0 < a \<Longrightarrow> 0 < b \<Longrightarrow> c_div a b = a div b \<and> c_mod a b = a mod b"
  by (simp add: c_div_def c_mod_def minus_mult_div_eq_mod)

lemma frontera_mono:
  "0 \<le> b \<Longrightarrow> x \<le> y \<Longrightarrow> x * b + min x r \<le> y * b + min y r" for b r x y :: int
  by (intro add_mono mult_right_mono) simp_all

lemma union_tramos:
  "(\<And>k. g k \<le> g (Suc k)) \<Longrightarrow> (\<Union>k<m. {g k..<g (Suc k)}) = {g 0..<g m}" for g :: "nat \<Rightarrow> int"
proof (induction m)
  case 0
  then show ?case by simp
next
  case (Suc m)
  have mono: "g 0 \<le> g m"
    using Suc.prems by (induction m) (auto intro: order_trans)
  have "(\<Union>k<Suc m. {g k..<g (Suc k)}) = (\<Union>k<m. {g k..<g (Suc k)}) \<union> {g m..<g (Suc m)}"
    by (simp add: lessThan_Suc Un_commute)
  also have "\<dots> = {g 0..<g m} \<union> {g m..<g (Suc m)}"
    using Suc by simp
  also have "\<dots> = {g 0..<g (Suc m)}"
    using mono Suc.prems [of m] by auto
  finally show ?case .
qed

lemma filtro_desde:
  "0 \<le> n \<Longrightarrow> n \<le> h \<Longrightarrow> filter (\<lambda>k. n \<le> k) [0..h - 1] = [n..h - 1]" for n h :: int
proof -
  assume "0 \<le> n" "n \<le> h"
  then have "[0..h - 1] = [0..n - 1] @ [n..h - 1]"
    by (cases "n = h") (simp_all add: upto_split1 [of 0 n "h - 1"])
  moreover have "filter (\<lambda>k. n \<le> k) [0..n - 1] = []"
    by (simp add: filter_empty_conv)
  moreover have "filter (\<lambda>k. n \<le> k) [n..h - 1] = [n..h - 1]"
    by (simp add: filter_id_conv)
  ultimately show ?thesis by simp
qed


lemma elemento_nth:
  "k < nat h \<Longrightarrow> map (elemento b r p) [0..h - 1] ! k = elemento b r p (int k)"
  by (simp add: nth_upto)

text \<open>
  The boundaries of every work item lie between \<open>0\<close> and \<open>n\<close>: for \<open>n\<close> in the range of
  \<open>int\<close>, the additions that compute them do not overflow.
\<close>

lemma elemento_en_rango:
  assumes n: "0 < n" and h: "0 < h" and k: "0 \<le> k" "k < h"
  shows "0 \<le> indice_inicio (elemento (n div h) (n mod h) p k)"
    and "indice_inicio (elemento (n div h) (n mod h) p k) \<le>
         indice_fin (elemento (n div h) (n mod h) p k)"
    and "indice_fin (elemento (n div h) (n mod h) p k) \<le> n"
proof -
  have b0: "0 \<le> n div h" and r0: "0 \<le> n mod h" and rh: "n mod h < h"
    using n h by (simp_all add: pos_imp_zdiv_nonneg_iff)
  show "0 \<le> indice_inicio (elemento (n div h) (n mod h) p k)"
    using b0 r0 k by simp
  show "indice_inicio (elemento (n div h) (n mod h) p k) \<le>
        indice_fin (elemento (n div h) (n mod h) p k)"
    using b0 by (simp add: frontera_mono)
  have "(k + 1) * (n div h) + min (k + 1) (n mod h) \<le> h * (n div h) + min h (n mod h)"
    using b0 k by (intro frontera_mono) simp_all
  also have "\<dots> = n" using rh by simp
  finally show "indice_fin (elemento (n div h) (n mod h) p k) \<le> n" by simp
qed

section \<open>The coordinator\<close>

lemma trabajo_suma_parcial_valor:
  "trabajo_suma_parcial ar ok d = (if ok then Some (suma_parcial_de ar d) else None)"
  by (simp add: trabajo_suma_parcial_def bucle_suma_foldl suma_parcial_de_def)

lemma bucle_join_general:
  "bucle_join ar en numero_hilos ds h suma_global traza =
     (traza @ concat (map (\<lambda>k. Join k # avisos en k) [h..numero_hilos - 1]),
      foldl (d_suma ar) suma_global
        (map (\<lambda>k. suma_parcial_de ar (ds ! nat k)) (filter (presente en) [h..numero_hilos - 1])))"
proof (induction ar en numero_hilos ds h suma_global traza rule: bucle_join.induct)
  case (1 ar en numero_hilos ds h suma_global traza)
  show ?case
  proof (cases "h < numero_hilos")
    case False
    then show ?thesis by (subst bucle_join.simps) simp
  next
    case True
    then have lista: "[h..numero_hilos - 1] = h # [h + 1..numero_hilos - 1]"
      by (simp add: upto_rec1)
    show ?thesis
    proof (cases "codigo_join en h \<noteq> 0")
      case falla: True
      then have pa: "\<not> presente en h" "avisos en h = [Error_pthread_join h (codigo_join en h)]"
        by (simp_all add: presente_def avisos_def)
      show ?thesis
        using True falla "1.IH"(1) [OF True refl falla]
        by (subst bucle_join.simps) (simp add: lista pa)
    next
      case bien: False
      show ?thesis
      proof (cases "malloc_resultado en h")
        case ok: True
        then have v: "trabajo_suma_parcial ar (malloc_resultado en h) (ds ! nat h) =
                  Some (suma_parcial_de ar (ds ! nat h))"
          by (simp add: trabajo_suma_parcial_valor)
        from bien ok have pa: "presente en h" "avisos en h = []"
          by (simp_all add: presente_def avisos_def)
        show ?thesis
          using True bien ok v "1.IH"(3) [OF True refl bien v]
          by (subst bucle_join.simps) (simp add: lista pa)
      next
        case nulo: False
        then have v: "trabajo_suma_parcial ar (malloc_resultado en h) (ds ! nat h) = None"
          by (simp add: trabajo_suma_parcial_valor)
        from bien nulo have pa: "\<not> presente en h" "avisos en h = [Advertencia_retorno_NULL h]"
          by (simp_all add: presente_def avisos_def)
        show ?thesis
          using True bien nulo v "1.IH"(2) [OF True refl bien v]
          by (subst bucle_join.simps) (simp add: lista pa)
      qed
    qed
  qed
qed


lemma calcular_pi_paralelo_general:
  assumes n: "0 < n" and h: "0 < h"
    and mem: "malloc_hilos en" "malloc_datos_hilos en"
    and crea: "\<forall>k. 0 \<le> k \<and> k < h \<longrightarrow> codigo_create en k = 0"
  shows "calcular_pi_paralelo ar en n h =
     (map (\<lambda>k. Crear k (elemento (n div h) (n mod h) (d_div ar (d_uno ar) (d_de_int ar n)) k))
        [0..h - 1] @
      concat (map (\<lambda>k. Join k # avisos en k) [0..h - 1]),
      Inr (d_mult ar (d_div ar (d_uno ar) (d_de_int ar n))
             (foldl (d_suma ar) (d_cero ar)
                (map (\<lambda>k. suma_parcial_de ar
                             (elemento (n div h) (n mod h) (d_div ar (d_uno ar) (d_de_int ar n)) k))
                   (filter (presente en) [0..h - 1])))))"
proof -
  let ?p = "d_div ar (d_uno ar) (d_de_int ar n)"
  let ?b = "n div h" and ?r = "n mod h"
  let ?ds = "map (elemento ?b ?r ?p) [0..h - 1]"
  have cd: "c_div n h = ?b" "c_mod n h = ?r"
    using c_div_positivos [OF n h] by simp_all
  have r0: "0 \<le> ?r" using h by simp
  have bucle: "bucle_crear en h ?b ?r ?p 0 0 [] [] =
      (map (\<lambda>k. Crear k (elemento ?b ?r ?p k)) [0..h - 1], Inr ?ds)"
    using bucle_crear_exito [of 0 h en 0 ?b ?r ?p "[]" "[]"] crea r0 by simp
  have sumas: "map (\<lambda>k. suma_parcial_de ar (?ds ! nat k)) (filter (presente en) [0..h - 1]) =
               map (\<lambda>k. suma_parcial_de ar (elemento ?b ?r ?p k)) (filter (presente en) [0..h - 1])"
  proof (rule map_cong [OF refl])
    fix k assume "k \<in> set (filter (presente en) [0..h - 1])"
    then have "nat k < nat h" "int (nat k) = k" by auto
    with elemento_nth [of "nat k" h ?b ?r ?p]
    show "suma_parcial_de ar (?ds ! nat k) = suma_parcial_de ar (elemento ?b ?r ?p k)"
      by (simp only:)
  qed
  have join: "bucle_join ar en h ?ds 0 (d_cero ar) T =
      (T @ concat (map (\<lambda>k. Join k # avisos en k) [0..h - 1]),
       foldl (d_suma ar) (d_cero ar)
         (map (\<lambda>k. suma_parcial_de ar (elemento ?b ?r ?p k)) (filter (presente en) [0..h - 1])))" for T
    using bucle_join_general [of ar en h ?ds 0 "d_cero ar" T] sumas by (simp only:)
  show ?thesis
    unfolding calcular_pi_paralelo_def Let_def cd
    using mem by (simp add: bucle join)
qed

text \<open>
  Claim C1.  For \<open>n > 0\<close> and \<open>h > 0\<close>, when both arrays are allocated and every thread
  can be created, the coordinator creates \<open>h\<close> threads and hands thread \<open>k\<close> item \<open>k\<close> of a
  list of \<open>h\<close> work items which starts at \<open>0\<close>, ends at \<open>n\<close>, is contiguous (each item
  ends where the next starts), has items of size \<open>n div h\<close> plus one for exactly the items
  \<open>k < n mod h\<close>, is pairwise disjoint and covers \<open>[0, n)\<close>.  No item is empty when
  \<open>h \<le> n\<close>; when \<open>n < h\<close> exactly \<open>h - n\<close> items are empty.  Every item carries the step
  \<open>1.0 / n\<close>.
\<close>

theorem particion_correcta:
  assumes n: "0 < n" and h: "0 < h"
    and mem: "malloc_hilos en" "malloc_datos_hilos en"
    and crea: "\<forall>k. 0 \<le> k \<and> k < h \<longrightarrow> codigo_create en k = 0"
  shows "\<exists>ds.
     fst (calcular_pi_paralelo ar en n h) =
       map (\<lambda>k. Crear k (ds ! nat k)) [0..h - 1] @
       concat (map (\<lambda>k. Join k # avisos en k) [0..h - 1]) \<and>
     length ds = nat h \<and>
     indice_inicio (ds ! 0) = 0 \<and>
     indice_fin (ds ! (nat h - 1)) = n \<and>
     (\<forall>k. Suc k < nat h \<longrightarrow> indice_fin (ds ! k) = indice_inicio (ds ! Suc k)) \<and>
     (\<forall>k < nat h. indice_fin (ds ! k) - indice_inicio (ds ! k) =
                    n div h + (if int k < n mod h then 1 else 0)) \<and>
     (\<forall>j k. j < k \<and> k < nat h \<longrightarrow>
        {indice_inicio (ds ! j)..<indice_fin (ds ! j)} \<inter>
        {indice_inicio (ds ! k)..<indice_fin (ds ! k)} = {}) \<and>
     (\<Union>k<nat h. {indice_inicio (ds ! k)..<indice_fin (ds ! k)}) = {0..<n} \<and>
     (h \<le> n \<longrightarrow> (\<forall>k < nat h. indice_inicio (ds ! k) < indice_fin (ds ! k))) \<and>
     (n < h \<longrightarrow> length (filter (\<lambda>d. indice_inicio d = indice_fin d) ds) = nat (h - n)) \<and>
     (\<forall>k < nat h. paso (ds ! k) = d_div ar (d_uno ar) (d_de_int ar n))"
proof -
  define b where "b = n div h"
  define r where "r = n mod h"
  define g where "g k = int k * b + min (int k) r" for k :: nat
  let ?p = "d_div ar (d_uno ar) (d_de_int ar n)"
  let ?ds = "map (elemento b r ?p) [0..h - 1]"
  have b0: "0 \<le> b" and r0: "0 \<le> r" and rh: "r < h" and nbr: "n = h * b + r"
    using n h by (simp_all add: b_def r_def pos_imp_zdiv_nonneg_iff)
  have calc: "fst (calcular_pi_paralelo ar en n h) =
      map (\<lambda>k. Crear k (elemento b r ?p k)) [0..h - 1] @
      concat (map (\<lambda>k. Join k # avisos en k) [0..h - 1])"
    using calcular_pi_paralelo_general [OF n h mem crea, of ar] by (simp add: b_def r_def)
  have nth: "?ds ! k = elemento b r ?p (int k)" if "k < nat h" for k
    using that by (rule elemento_nth)
  have ini: "indice_inicio (?ds ! k) = g k" and fin: "indice_fin (?ds ! k) = g (Suc k)"
    if "k < nat h" for k
    using nth [OF that] by (simp_all add: g_def add.commute)
  have gmono: "g j \<le> g k" if "j \<le> k" for j k
    unfolding g_def using that b0 by (intro frontera_mono) simp_all
  have g0: "g 0 = 0" using r0 by (simp add: g_def)
  have gh: "g (nat h) = n" using h rh nbr by (simp add: g_def)
  have tam: "g (Suc k) - g k = b + (if int k < r then 1 else 0)" for k
    by (simp add: g_def algebra_simps min_def)
  have traza: "map (\<lambda>k. Crear k (elemento b r ?p k)) [0..h - 1] =
               map (\<lambda>k. Crear k (?ds ! nat k)) [0..h - 1]"
  proof (rule map_cong [OF refl])
    fix k assume "k \<in> set [0..h - 1]"
    then have "nat k < nat h" "int (nat k) = k" by auto
    with nth [of "nat k"] show "Crear k (elemento b r ?p k) = Crear k (?ds ! nat k)" by simp
  qed
  have p1: "length ?ds = nat h" by simp
  have p2: "indice_inicio (?ds ! 0) = 0" using ini [of 0] h g0 by simp
  have p3: "indice_fin (?ds ! (nat h - 1)) = n"
    using fin [of "nat h - 1"] h gh by simp
  have p4: "\<forall>k. Suc k < nat h \<longrightarrow> indice_fin (?ds ! k) = indice_inicio (?ds ! Suc k)"
  proof (intro allI impI)
    fix k assume k: "Suc k < nat h"
    then have "k < nat h" by simp
    from fin [OF this] ini [OF k] show "indice_fin (?ds ! k) = indice_inicio (?ds ! Suc k)"
      by (simp only:)
  qed
  have p5: "\<forall>k < nat h. indice_fin (?ds ! k) - indice_inicio (?ds ! k) =
                    n div h + (if int k < n mod h then 1 else 0)"
  proof (intro allI impI)
    fix k assume k: "k < nat h"
    show "indice_fin (?ds ! k) - indice_inicio (?ds ! k) =
                    n div h + (if int k < n mod h then 1 else 0)"
      unfolding fin [OF k] ini [OF k] tam by (simp only: b_def r_def)
  qed
  have p6: "\<forall>j k. j < k \<and> k < nat h \<longrightarrow>
        {indice_inicio (?ds ! j)..<indice_fin (?ds ! j)} \<inter>
        {indice_inicio (?ds ! k)..<indice_fin (?ds ! k)} = {}"
  proof (intro allI impI)
    fix j k assume jk: "j < k \<and> k < nat h"
    then have "g (Suc j) \<le> g k" by (intro gmono) simp
    moreover from jk have "j < nat h" "k < nat h" by simp_all
    ultimately show "{indice_inicio (?ds ! j)..<indice_fin (?ds ! j)} \<inter>
        {indice_inicio (?ds ! k)..<indice_fin (?ds ! k)} = {}"
      by (simp only: ini fin) auto
  qed
  have p7: "(\<Union>k<nat h. {indice_inicio (?ds ! k)..<indice_fin (?ds ! k)}) = {0..<n}"
  proof -
    have "(\<Union>k<nat h. {indice_inicio (?ds ! k)..<indice_fin (?ds ! k)}) =
          (\<Union>k<nat h. {g k..<g (Suc k)})"
      by (rule SUP_cong [OF refl]) (simp only: ini fin lessThan_iff)
    also have "\<dots> = {g 0..<g (nat h)}"
      by (rule union_tramos) (simp add: gmono)
    finally show ?thesis by (simp add: g0 gh)
  qed
  have p8: "h \<le> n \<longrightarrow> (\<forall>k < nat h. indice_inicio (?ds ! k) < indice_fin (?ds ! k))"
  proof (intro impI allI)
    fix k assume "h \<le> n" "k < nat h"
    then have "1 \<le> b" using h pos_imp_zdiv_pos_iff [of h n] by (simp add: b_def)
    with tam [of k] have "g k < g (Suc k)" by (simp split: if_splits)
    with \<open>k < nat h\<close> show "indice_inicio (?ds ! k) < indice_fin (?ds ! k)"
      by (simp only: ini fin)
  qed
  have p9: "n < h \<longrightarrow> length (filter (\<lambda>d. indice_inicio d = indice_fin d) ?ds) = nat (h - n)"
  proof
    assume nh: "n < h"
    then have br: "b = 0" "r = n" using n by (simp_all add: b_def r_def)
    have "filter (\<lambda>d. indice_inicio d = indice_fin d) ?ds =
          map (elemento b r ?p) (filter (\<lambda>k. n \<le> k) [0..h - 1])"
      unfolding filter_map by (rule arg_cong [where f = "map _"], rule filter_cong) (auto simp: br min_def)
    also have "filter (\<lambda>k. n \<le> k) [0..h - 1] = [n..h - 1]"
      using n nh by (intro filtro_desde) simp_all
    finally show "length (filter (\<lambda>d. indice_inicio d = indice_fin d) ?ds) = nat (h - n)"
      by simp
  qed
  have p10: "\<forall>k < nat h. paso (?ds ! k) = ?p"
    by (simp add: nth_upto)
  show ?thesis
    unfolding calc traza
    by (intro exI [of _ ?ds] conjI refl p1 p2 p3 p4 p5 p6 p7 p8 p9 p10)
qed

theorem particion_correcta_witness:
  "fst (calcular_pi_paralelo aritmetica_real entorno_sin_fallos 5 2) =
     [Crear 0 \<lparr>indice_inicio = 0, indice_fin = 3, paso = 1 / 5\<rparr>,
      Crear 1 \<lparr>indice_inicio = 3, indice_fin = 5, paso = 1 / 5\<rparr>,
      Join 0, Join 1]"
proof -
  have c: "\<forall>k. 0 \<le> k \<and> k < 2 \<longrightarrow> codigo_create entorno_sin_fallos k = 0"
    by (simp add: entorno_sin_fallos_def)
  have m: "malloc_hilos entorno_sin_fallos" "malloc_datos_hilos entorno_sin_fallos"
    by (simp_all add: entorno_sin_fallos_def)
  from particion_correcta [of 5 2 entorno_sin_fallos aritmetica_real, OF _ _ m c]
  obtain ds where
    d: "fst (calcular_pi_paralelo aritmetica_real entorno_sin_fallos 5 2) =
          map (\<lambda>k. Crear k (ds ! nat k)) [0..2 - 1] @
          concat (map (\<lambda>k. Join k # avisos entorno_sin_fallos k) [0..2 - 1])"
      "indice_inicio (ds ! 0) = 0" "indice_fin (ds ! (nat 2 - 1)) = 5"
      "\<forall>k. Suc k < nat 2 \<longrightarrow> indice_fin (ds ! k) = indice_inicio (ds ! Suc k)"
      "\<forall>k < nat 2. indice_fin (ds ! k) - indice_inicio (ds ! k) =
                    5 div 2 + (if int k < 5 mod 2 then 1 else 0)"
      "\<forall>k < nat 2. paso (ds ! k) =
          d_div aritmetica_real (d_uno aritmetica_real) (d_de_int aritmetica_real 5)"
    by auto
  from d(5) have "indice_fin (ds ! 0) - indice_inicio (ds ! 0) = 3" by simp
  with d(2) have f0: "indice_fin (ds ! 0) = 3" by simp
  from d(4) have "indice_fin (ds ! 0) = indice_inicio (ds ! Suc 0)" by simp
  with f0 have i1: "indice_inicio (ds ! 1) = 3" by simp
  from d(3) have f1: "indice_fin (ds ! 1) = 5" by simp
  from d(6) have p: "paso (ds ! 0) = 1 / 5" "paso (ds ! 1) = 1 / 5"
    by (simp_all add: aritmetica_real_def)
  have e0: "ds ! 0 = \<lparr>indice_inicio = 0, indice_fin = 3, paso = 1 / 5\<rparr>"
    using d(2) f0 p(1) by (cases "ds ! 0") simp
  have e1: "ds ! 1 = \<lparr>indice_inicio = 3, indice_fin = 5, paso = 1 / 5\<rparr>"
    using i1 f1 p(2) by (cases "ds ! 1") simp
  have l: "[0..(2::int) - 1] = [0, 1]" by (simp add: upto_rec1)
  show ?thesis
    unfolding d(1) l using e0 e1 by (simp add: avisos_def entorno_sin_fallos_def)
qed

lemma bucle_crear_falla:
  "h \<le> k \<Longrightarrow> k < numero_hilos \<Longrightarrow>
   (\<forall>j. h \<le> j \<and> j < k \<longrightarrow> codigo_create en j = 0) \<Longrightarrow> codigo_create en k \<noteq> 0 \<Longrightarrow>
   inicio_actual = h * tam_bloque + min h resto \<Longrightarrow>
   bucle_crear en numero_hilos tam_bloque resto p h inicio_actual datos_hilos traza =
     (traza @ map (\<lambda>j. Crear j (elemento tam_bloque resto p j)) [h..k - 1] @
      [Error_crear_hilo k (codigo_create en k)] @ map Join [0..k - 1],
      Inl EXIT_FAILURE)"
proof (induction en numero_hilos tam_bloque resto p h inicio_actual datos_hilos traza
       rule: bucle_crear.induct)
  case (1 en numero_hilos tam_bloque resto p h inicio_actual datos_hilos traza)
  from "1.prems"(1,2) have True: "h < numero_hilos" by simp
  let ?d = "\<lparr>indice_inicio = inicio_actual,
             indice_fin = inicio_actual + tam_bloque + (if h < resto then 1 else 0), paso = p\<rparr>"
  show ?case
  proof (cases "h = k")
    case True
    with "1.prems" \<open>h < numero_hilos\<close> show ?thesis
      by (subst bucle_crear.simps) (simp add: Let_def)
  next
    case False
    with "1.prems"(1) have hk: "h + 1 \<le> k" by simp
    with "1.prems"(3) have c: "codigo_create en h = 0" by simp
    have d: "?d = elemento tam_bloque resto p h"
      using "1.prems"(5) by (simp add: elemento_def algebra_simps min_def)
    have sig: "indice_fin ?d = (h + 1) * tam_bloque + min (h + 1) resto"
      using "1.prems"(5) by (simp add: algebra_simps min_def)
    have antes: "\<forall>j. h + 1 \<le> j \<and> j < k \<longrightarrow> codigo_create en j = 0"
      using "1.prems"(3) by simp
    have lista: "[h..k - 1] = h # [h + 1..k - 1]"
      using hk by (simp add: upto_rec1)
    have "bucle_crear en numero_hilos tam_bloque resto p h inicio_actual datos_hilos traza =
          bucle_crear en numero_hilos tam_bloque resto p (h + 1) (indice_fin ?d)
            (datos_hilos @ [?d]) (traza @ [Crear h ?d])"
      using True c by (subst bucle_crear.simps) (simp add: Let_def)
    also have "\<dots> = ((traza @ [Crear h ?d]) @
                    map (\<lambda>j. Crear j (elemento tam_bloque resto p j)) [h + 1..k - 1] @
                    [Error_crear_hilo k (codigo_create en k)] @ map Join [0..k - 1],
                  Inl EXIT_FAILURE)"
      using c by (intro "1.IH" [OF True refl refl refl _ hk "1.prems"(2) antes "1.prems"(4) sig]) simp
    finally show ?thesis
      unfolding lista d by simp
  qed
qed

text \<open>
  Claim C2.  For \<open>n > 0\<close> and \<open>h > 0\<close>, when both arrays are allocated and every thread is
  created, joined and returns a sum, the coordinator returns \<open>paso * suma_global\<close> with
  \<open>paso = 1.0 / n\<close> and \<open>suma_global\<close> the partial sums of the threads \<open>0, \<dots>, h - 1\<close>
  added to \<open>0.0\<close> in this order; the partial sum of thread \<open>k\<close> is what its
  \<open>trabajo_suma_parcial\<close> returned for item \<open>k\<close> of the partition.
\<close>

theorem calcular_pi_paralelo_todos_ok:
  assumes "0 < n" and "0 < h" and "malloc_hilos en" and "malloc_datos_hilos en"
    and todos: "\<forall>k. 0 \<le> k \<and> k < h \<longrightarrow>
             codigo_create en k = 0 \<and> codigo_join en k = 0 \<and> malloc_resultado en k"
  shows "snd (calcular_pi_paralelo ar en n h) =
           Inr (d_mult ar (d_div ar (d_uno ar) (d_de_int ar n))
                  (foldl (d_suma ar) (d_cero ar)
                     (map (\<lambda>k. suma_parcial_de ar
                                  (elemento (n div h) (n mod h)
                                     (d_div ar (d_uno ar) (d_de_int ar n)) k))
                        [0..h - 1])))
         \<and> (\<forall>k. 0 \<le> k \<and> k < h \<longrightarrow>
               trabajo_suma_parcial ar (malloc_resultado en k)
                 (elemento (n div h) (n mod h) (d_div ar (d_uno ar) (d_de_int ar n)) k) =
               Some (suma_parcial_de ar
                       (elemento (n div h) (n mod h) (d_div ar (d_uno ar) (d_de_int ar n)) k)))"
proof -
  have crea: "\<forall>k. 0 \<le> k \<and> k < h \<longrightarrow> codigo_create en k = 0"
    using todos by simp
  have "filter (presente en) [0..h - 1] = [0..h - 1]"
    using todos by (simp add: filter_id_conv presente_def)
  then have "snd (calcular_pi_paralelo ar en n h) =
           Inr (d_mult ar (d_div ar (d_uno ar) (d_de_int ar n))
                  (foldl (d_suma ar) (d_cero ar)
                     (map (\<lambda>k. suma_parcial_de ar
                                  (elemento (n div h) (n mod h)
                                     (d_div ar (d_uno ar) (d_de_int ar n)) k))
                        [0..h - 1])))"
    using calcular_pi_paralelo_general [OF assms(1-4) crea, of ar] by simp
  moreover have "\<forall>k. 0 \<le> k \<and> k < h \<longrightarrow>
               trabajo_suma_parcial ar (malloc_resultado en k)
                 (elemento (n div h) (n mod h) (d_div ar (d_uno ar) (d_de_int ar n)) k) =
               Some (suma_parcial_de ar
                       (elemento (n div h) (n mod h) (d_div ar (d_uno ar) (d_de_int ar n)) k))"
    using todos by (simp add: trabajo_suma_parcial_valor)
  ultimately show ?thesis by (rule conjI)
qed

theorem calcular_pi_paralelo_todos_ok_witness:
  "snd (calcular_pi_paralelo aritmetica_real entorno_sin_fallos 5 2) =
     Inr (23343347536 / 7422543025)"
  using calcular_pi_paralelo_todos_ok [of 5 2 entorno_sin_fallos aritmetica_real]
  by (simp add: entorno_sin_fallos_def suma_parcial_de_def elemento_def funcion_integrando_def
        aritmetica_real_def upto_rec1)

text \<open>
  Claim C7.  Whatever joins fail and whatever threads return the null pointer, the
  coordinator does not abort: it creates and joins all \<open>h\<close> threads, prints one line for
  each thread whose sum is absent (the join error, or the warning for the null pointer)
  and none for the others, and returns \<open>paso\<close> times the partial sums of the remaining
  threads added to \<open>0.0\<close> in index order.  The number of sums added is \<open>h\<close> minus the
  number of absent ones.
\<close>

theorem fallos_locales_no_abortan:
  assumes "0 < n" and "0 < h" and "malloc_hilos en" and "malloc_datos_hilos en"
    and crea: "\<forall>k. 0 \<le> k \<and> k < h \<longrightarrow> codigo_create en k = 0"
  shows "calcular_pi_paralelo ar en n h =
     (map (\<lambda>k. Crear k (elemento (n div h) (n mod h) (d_div ar (d_uno ar) (d_de_int ar n)) k))
        [0..h - 1] @
      concat (map (\<lambda>k. Join k # avisos en k) [0..h - 1]),
      Inr (d_mult ar (d_div ar (d_uno ar) (d_de_int ar n))
             (foldl (d_suma ar) (d_cero ar)
                (map (\<lambda>k. suma_parcial_de ar
                             (elemento (n div h) (n mod h) (d_div ar (d_uno ar) (d_de_int ar n)) k))
                   (filter (presente en) [0..h - 1])))))
     \<and> (\<forall>k. presente en k \<longleftrightarrow>
            codigo_join en k = 0 \<and>
            trabajo_suma_parcial ar (malloc_resultado en k)
              (elemento (n div h) (n mod h) (d_div ar (d_uno ar) (d_de_int ar n)) k) \<noteq> None)
     \<and> (\<forall>k. avisos en k =
            (if presente en k then []
             else if codigo_join en k \<noteq> 0 then [Error_pthread_join k (codigo_join en k)]
             else [Advertencia_retorno_NULL k]))
     \<and> length (filter (presente en) [0..h - 1]) =
         nat h - length (filter (\<lambda>k. \<not> presente en k) [0..h - 1])"
proof -
  have "length (filter (presente en) [0..h - 1]) + length (filter (\<lambda>k. \<not> presente en k) [0..h - 1])
        = length [0..h - 1]"
    by (rule sum_length_filter_compl)
  then have "length (filter (presente en) [0..h - 1]) =
         nat h - length (filter (\<lambda>k. \<not> presente en k) [0..h - 1])"
    by simp
  moreover have "\<forall>k. presente en k \<longleftrightarrow>
            codigo_join en k = 0 \<and>
            trabajo_suma_parcial ar (malloc_resultado en k)
              (elemento (n div h) (n mod h) (d_div ar (d_uno ar) (d_de_int ar n)) k) \<noteq> None"
    by (simp add: presente_def trabajo_suma_parcial_valor)
  moreover have "\<forall>k. avisos en k =
            (if presente en k then []
             else if codigo_join en k \<noteq> 0 then [Error_pthread_join k (codigo_join en k)]
             else [Advertencia_retorno_NULL k])"
    by (simp add: presente_def avisos_def)
  ultimately show ?thesis
    using calcular_pi_paralelo_general [OF assms, of ar] by blast
qed

theorem fallos_locales_no_abortan_witness:
  "calcular_pi_paralelo aritmetica_real entorno_fallos_locales 5 4 =
     ([Crear 0 \<lparr>indice_inicio = 0, indice_fin = 2, paso = 1 / 5\<rparr>,
       Crear 1 \<lparr>indice_inicio = 2, indice_fin = 3, paso = 1 / 5\<rparr>,
       Crear 2 \<lparr>indice_inicio = 3, indice_fin = 4, paso = 1 / 5\<rparr>,
       Crear 3 \<lparr>indice_inicio = 4, indice_fin = 5, paso = 1 / 5\<rparr>,
       Join 0, Join 1, Error_pthread_join 1 3, Join 2, Advertencia_retorno_NULL 2, Join 3],
      Inr (3921520 / 1992629))"
  using fallos_locales_no_abortan [of 5 4 entorno_fallos_locales aritmetica_real]
  by (simp add: entorno_fallos_locales_def suma_parcial_de_def elemento_def funcion_integrando_def
        aritmetica_real_def upto_rec1 presente_def avisos_def)

text \<open>
  Claim C6.  When the creation of thread \<open>k\<close> fails after the threads \<open>0, \<dots>, k - 1\<close>
  were created, the coordinator prints the error, joins the threads \<open>0, \<dots>, k - 1\<close> in
  this order and leaves the program with \<open>exit(EXIT_FAILURE)\<close>: no value is returned and
  no sum of a thread is read.
\<close>

theorem fallo_al_crear_aborta:
  assumes "0 < n" and "0 < h" and "malloc_hilos en" and "malloc_datos_hilos en"
    and k: "0 \<le> k" "k < h"
    and antes: "\<forall>j. 0 \<le> j \<and> j < k \<longrightarrow> codigo_create en j = 0"
    and falla: "codigo_create en k \<noteq> 0"
  shows "calcular_pi_paralelo ar en n h =
     (map (\<lambda>j. Crear j (elemento (n div h) (n mod h) (d_div ar (d_uno ar) (d_de_int ar n)) j))
        [0..k - 1] @
      [Error_crear_hilo k (codigo_create en k)] @ map Join [0..k - 1],
      Inl EXIT_FAILURE)"
proof -
  have cd: "c_div n h = n div h" "c_mod n h = n mod h"
    using c_div_positivos [OF assms(1,2)] by simp_all
  have r0: "0 \<le> n mod h" using assms(2) by simp
  have "bucle_crear en h (n div h) (n mod h) (d_div ar (d_uno ar) (d_de_int ar n)) 0 0 [] [] =
     ([] @ map (\<lambda>j. Crear j (elemento (n div h) (n mod h) (d_div ar (d_uno ar) (d_de_int ar n)) j))
        [0..k - 1] @
      [Error_crear_hilo k (codigo_create en k)] @ map Join [0..k - 1],
      Inl EXIT_FAILURE)"
    using k antes falla r0 by (intro bucle_crear_falla) simp_all
  then show ?thesis
    unfolding calcular_pi_paralelo_def Let_def cd using assms(3,4) by simp
qed

theorem fallo_al_crear_aborta_witness:
  "calcular_pi_paralelo aritmetica_real entorno_fallo_crear 5 4 =
     ([Crear 0 \<lparr>indice_inicio = 0, indice_fin = 2, paso = 1 / 5\<rparr>,
       Crear 1 \<lparr>indice_inicio = 2, indice_fin = 3, paso = 1 / 5\<rparr>,
       Error_crear_hilo 2 11, Join 0, Join 1],
      Inl EXIT_FAILURE)"
  using fallo_al_crear_aborta [of 5 4 entorno_fallo_crear 2 aritmetica_real]
  by (simp add: entorno_fallo_crear_def elemento_def aritmetica_real_def upto_rec1)

section \<open>One thread, one interval\<close>

lemma bucle_secuencial_foldl:
  "bucle_secuencial ar n p i acc =
     foldl (\<lambda>s k. d_suma ar s
               (funcion_integrando ar (d_mult ar p (d_suma ar (d_de_int ar k) (d_medio ar)))))
       acc [i..n - 1]"
proof (induction ar n p i acc rule: bucle_secuencial.induct)
  case (1 ar n p i suma)
  show ?case
  proof (cases "i < n")
    case True
    then have "[i..n - 1] = i # [i + 1..n - 1]"
      by (simp add: upto_rec1)
    with True "1.IH" show ?thesis
      by (subst bucle_secuencial.simps) (simp add: Let_def)
  next
    case False
    then show ?thesis
      by (subst bucle_secuencial.simps) simp
  qed
qed

text \<open>
  Claim C8.  With \<open>h = 1\<close> the partition is the single work item \<open>[0, n)\<close>.  The thread
  runs the loop of the sequential routine, with the same operations in the same order,
  and the coordinator adds the thread's sum \<open>S\<close> to \<open>0.0\<close> before it multiplies by \<open>paso\<close>:
  the parallel result is \<open>paso * (0.0 + S)\<close> where the sequential one is \<open>paso * S\<close>.  The
  two are equal whenever \<open>0.0 + S = S\<close>, which holds in IEEE 754 arithmetic for every
  \<open>S\<close> other than the negative zero, so they differ by less than any tolerance.
\<close>

theorem un_hilo_igual_secuencial:
  assumes n: "0 < n" and mem: "malloc_hilos en" "malloc_datos_hilos en"
    and hilo: "codigo_create en 0 = 0" "codigo_join en 0 = 0" "malloc_resultado en 0"
  shows "(\<exists>traza. bucle_crear en 1 (c_div n 1) (c_mod n 1) p 0 0 [] [] =
            (traza, Inr [\<lparr>indice_inicio = 0, indice_fin = n, paso = p\<rparr>]))
     \<and> snd (calcular_pi_paralelo ar en n 1) =
         Inr (d_mult ar (d_div ar (d_uno ar) (d_de_int ar n))
                (d_suma ar (d_cero ar)
                   (bucle_secuencial ar n (d_div ar (d_uno ar) (d_de_int ar n)) 0 (d_cero ar))))
     \<and> calcular_pi_secuencial ar n =
         d_mult ar (d_div ar (d_uno ar) (d_de_int ar n))
           (bucle_secuencial ar n (d_div ar (d_uno ar) (d_de_int ar n)) 0 (d_cero ar))
     \<and> (d_suma ar (d_cero ar)
           (bucle_secuencial ar n (d_div ar (d_uno ar) (d_de_int ar n)) 0 (d_cero ar)) =
         bucle_secuencial ar n (d_div ar (d_uno ar) (d_de_int ar n)) 0 (d_cero ar) \<longrightarrow>
         snd (calcular_pi_paralelo ar en n 1) = Inr (calcular_pi_secuencial ar n))"
proof -
  let ?p = "d_div ar (d_uno ar) (d_de_int ar n)"
  let ?S = "bucle_secuencial ar n ?p 0 (d_cero ar)"
  have crea: "\<forall>k. 0 \<le> k \<and> k < 1 \<longrightarrow> codigo_create en k = 0"
  proof (intro allI impI)
    fix k :: int assume "0 \<le> k \<and> k < 1"
    then have "k = 0" by linarith
    with hilo(1) show "codigo_create en k = 0" by simp
  qed
  have uno: "[0..(1::int) - 1] = [0]" by (simp add: upto_rec1)
  have el: "elemento n 0 q 0 = \<lparr>indice_inicio = 0, indice_fin = n, paso = q\<rparr>" for q :: 'b
    by (simp add: elemento_def)
  have cd: "c_div n 1 = n" "c_mod n 1 = 0"
    using c_div_positivos [OF n, of 1] by simp_all
  have particion: "\<exists>traza. bucle_crear en 1 (c_div n 1) (c_mod n 1) p 0 0 [] [] =
            (traza, Inr [\<lparr>indice_inicio = 0, indice_fin = n, paso = p\<rparr>])"
    using bucle_crear_exito [of 0 1 en 0 n 0 p "[]" "[]"] crea
    by (simp add: cd uno el)
  have S: "suma_parcial_de ar (elemento n 0 ?p 0) = ?S"
    by (simp add: suma_parcial_de_def bucle_secuencial_foldl)
  have pres: "presente en 0"
    using hilo by (simp add: presente_def)
  have par: "snd (calcular_pi_paralelo ar en n 1) = Inr (d_mult ar ?p (d_suma ar (d_cero ar) ?S))"
    using calcular_pi_paralelo_general [OF n _ mem crea, of ar]
    by (simp add: uno pres S)
  have sec: "calcular_pi_secuencial ar n = d_mult ar ?p ?S"
    by (simp add: calcular_pi_secuencial_def Let_def)
  from particion par sec show ?thesis by simp
qed

theorem un_hilo_igual_secuencial_witness:
  "snd (calcular_pi_paralelo aritmetica_real entorno_sin_fallos 5 1) =
     Inr (calcular_pi_secuencial aritmetica_real 5)
   \<and> calcular_pi_secuencial aritmetica_real 5 = 23343347536 / 7422543025"
proof -
  have s: "calcular_pi_secuencial aritmetica_real 5 = 23343347536 / 7422543025"
    by (simp add: calcular_pi_secuencial_def bucle_secuencial_foldl funcion_integrando_def
          aritmetica_real_def upto_rec1)
  have "d_suma aritmetica_real (d_cero aritmetica_real) x = x" for x
    by (simp add: aritmetica_real_def)
  with un_hilo_igual_secuencial [of 5 entorno_sin_fallos 0 aritmetica_real] s
  show ?thesis
    by (simp add: entorno_sin_fallos_def)
qed

lemma foldl_ceros:
  "d_suma ar v (d_cero ar) = v \<Longrightarrow> foldl (d_suma ar) v (map (\<lambda>k. d_cero ar) ks) = v"
  by (induction ks) simp_all

lemma particion_n_uno:
  assumes h: "1 \<le> h"
  shows "elemento (1 div h) (1 mod h) p 0 = \<lparr>indice_inicio = 0, indice_fin = 1, paso = p\<rparr>"
    and "map (elemento (1 div h) (1 mod h) p) [1..h - 1] =
         map (\<lambda>k. \<lparr>indice_inicio = 1, indice_fin = 1, paso = p\<rparr>) [1..h - 1]"
proof -
  show "elemento (1 div h) (1 mod h) p 0 = \<lparr>indice_inicio = 0, indice_fin = 1, paso = p\<rparr>"
  proof (cases "h = 1")
    case True
    then show ?thesis by (simp add: elemento_def)
  next
    case False
    with h have "1 div h = 0" "1 mod h = 1" by simp_all
    then show ?thesis by (simp add: elemento_def)
  qed
  show "map (elemento (1 div h) (1 mod h) p) [1..h - 1] =
         map (\<lambda>k. \<lparr>indice_inicio = 1, indice_fin = 1, paso = p\<rparr>) [1..h - 1]"
  proof (rule map_cong [OF refl])
    fix k assume "k \<in> set [1..h - 1]"
    then have k: "1 \<le> k" "k < h" by simp_all
    then have "1 div h = 0" "1 mod h = 1" by simp_all
    with k show "elemento (1 div h) (1 mod h) p k = \<lparr>indice_inicio = 1, indice_fin = 1, paso = p\<rparr>"
      by (simp add: elemento_def min_def)
  qed
qed

text \<open>
  Claim C9.  With \<open>n = 1\<close> and \<open>h \<ge> 1\<close> threads that all succeed, the partition is the
  item \<open>[0, 1)\<close> followed by \<open>h - 1\<close> empty items \<open>[1, 1)\<close>, so the integrand is evaluated
  once, and the result is \<open>4.0 / (1.0 + 0.5 * 0.5)\<close>.  The hypotheses on the arithmetic
  are the six operations of this run that IEEE 754 performs exactly:
  \<open>1.0 / 1.0 = 1.0\<close>, \<open>0.0 + 0.5 = 0.5\<close>, \<open>1.0 * 0.5 = 0.5\<close>, and for the value \<open>v\<close> of the
  integrand \<open>0.0 + v = v\<close>, \<open>v + 0.0 = v\<close> and \<open>1.0 * v = v\<close>.  In exact arithmetic the value
  is \<open>16 / 5 = 3.2\<close>.
\<close>

theorem un_intervalo:
  assumes h: "1 \<le> h" and mem: "malloc_hilos en" "malloc_datos_hilos en"
    and todos: "\<forall>k. 0 \<le> k \<and> k < h \<longrightarrow>
             codigo_create en k = 0 \<and> codigo_join en k = 0 \<and> malloc_resultado en k"
    and paso_uno: "d_div ar (d_uno ar) (d_de_int ar 1) = d_uno ar"
    and medio: "d_suma ar (d_de_int ar 0) (d_medio ar) = d_medio ar"
    and x_medio: "d_mult ar (d_uno ar) (d_medio ar) = d_medio ar"
    and cero_izq: "d_suma ar (d_cero ar) (funcion_integrando ar (d_medio ar)) =
                   funcion_integrando ar (d_medio ar)"
    and cero_der: "d_suma ar (funcion_integrando ar (d_medio ar)) (d_cero ar) =
                   funcion_integrando ar (d_medio ar)"
    and por_uno: "d_mult ar (d_uno ar) (funcion_integrando ar (d_medio ar)) =
                  funcion_integrando ar (d_medio ar)"
  shows "snd (calcular_pi_paralelo ar en 1 h) =
           Inr (d_div ar (d_cuatro ar) (d_suma ar (d_uno ar) (d_mult ar (d_medio ar) (d_medio ar))))
     \<and> (\<exists>traza. bucle_crear en h (c_div 1 h) (c_mod 1 h) p 0 0 [] [] =
           (traza, Inr (\<lparr>indice_inicio = 0, indice_fin = 1, paso = p\<rparr> #
                        replicate (nat h - 1) \<lparr>indice_inicio = 1, indice_fin = 1, paso = p\<rparr>)))"
proof -
  let ?v = "funcion_integrando ar (d_medio ar)"
  let ?p = "d_div ar (d_uno ar) (d_de_int ar 1)"
  have h0: "0 < h" using h by simp
  have crea: "\<forall>k. 0 \<le> k \<and> k < h \<longrightarrow> codigo_create en k = 0"
    using todos by simp
  have lista: "[0..h - 1] = 0 # [1..h - 1]"
    using h by (simp add: upto_rec1)
  have cd: "c_div 1 h = 1 div h" "c_mod 1 h = 1 mod h"
    using c_div_positivos [OF _ h0, of 1] by simp_all
  have r0: "0 \<le> 1 mod h" using h0 by simp
  have "bucle_crear en h (1 div h) (1 mod h) p 0 0 [] [] =
      (map (\<lambda>k. Crear k (elemento (1 div h) (1 mod h) p k)) [0..h - 1],
       Inr (map (elemento (1 div h) (1 mod h) p) [0..h - 1]))"
    using bucle_crear_exito [of 0 h en 0 "1 div h" "1 mod h" p "[]" "[]"] crea r0 by simp
  moreover have "map (elemento (1 div h) (1 mod h) p) [0..h - 1] =
        \<lparr>indice_inicio = 0, indice_fin = 1, paso = p\<rparr> #
        replicate (nat h - 1) \<lparr>indice_inicio = 1, indice_fin = 1, paso = p\<rparr>"
    using h unfolding lista
    by (simp add: particion_n_uno [OF h] map_replicate_const nat_diff_distrib)
  ultimately have particion: "\<exists>traza. bucle_crear en h (c_div 1 h) (c_mod 1 h) p 0 0 [] [] =
           (traza, Inr (\<lparr>indice_inicio = 0, indice_fin = 1, paso = p\<rparr> #
                        replicate (nat h - 1) \<lparr>indice_inicio = 1, indice_fin = 1, paso = p\<rparr>))"
    by (simp add: cd)
  have primero: "suma_parcial_de ar (elemento (1 div h) (1 mod h) ?p 0) = ?v"
    unfolding particion_n_uno(1) [OF h]
    by (simp add: suma_parcial_de_def upto_rec1 paso_uno medio x_medio cero_izq)
  have resto: "map (\<lambda>k. suma_parcial_de ar (elemento (1 div h) (1 mod h) ?p k)) [1..h - 1] =
               map (\<lambda>k. d_cero ar) [1..h - 1]"
  proof -
    have "map (\<lambda>k. suma_parcial_de ar (elemento (1 div h) (1 mod h) ?p k)) [1..h - 1] =
          map (suma_parcial_de ar) (map (elemento (1 div h) (1 mod h) ?p) [1..h - 1])"
      by simp
    also have "\<dots> = map (\<lambda>k. d_cero ar) [1..h - 1]"
      unfolding particion_n_uno(2) [OF h] by (simp add: suma_parcial_de_def)
    finally show ?thesis .
  qed
  have "filter (presente en) [0..h - 1] = [0..h - 1]"
    using todos by (simp add: filter_id_conv presente_def)
  then have "snd (calcular_pi_paralelo ar en 1 h) =
      Inr (d_mult ar ?p
             (foldl (d_suma ar) (d_cero ar)
                (map (\<lambda>k. suma_parcial_de ar (elemento (1 div h) (1 mod h) ?p k)) [0..h - 1])))"
    using calcular_pi_paralelo_general [OF _ h0 mem crea, of 1 ar] by simp
  also have "foldl (d_suma ar) (d_cero ar)
                (map (\<lambda>k. suma_parcial_de ar (elemento (1 div h) (1 mod h) ?p k)) [0..h - 1]) = ?v"
    unfolding lista using foldl_ceros [OF cero_der, of "[1..h - 1]"]
    by (simp add: primero resto cero_izq)
  finally have "snd (calcular_pi_paralelo ar en 1 h) = Inr ?v"
    by (simp add: paso_uno por_uno)
  with particion show ?thesis
    by (simp add: funcion_integrando_def)
qed

theorem un_intervalo_witness:
  "snd (calcular_pi_paralelo aritmetica_real entorno_sin_fallos 1 3) = Inr (16 / 5)
   \<and> (16 / 5 :: real) = 3.2"
  using un_intervalo [of 3 entorno_sin_fallos aritmetica_real 0]
  by (simp add: entorno_sin_fallos_def aritmetica_real_def funcion_integrando_def)

section \<open>The main function of pi\_p.c\<close>

lemma sint_int32_max: "sint (w :: 32 word) \<le> 2147483647"
  using sint_lt [of w] by simp

text \<open>
  A value of \<open>n\<close> that \<open>atoi\<close> returns as zero or negative is rejected before anything is
  computed.  The second test of the source, \<open>numero_intervalos > 2147483647\<close>, is never
  true of an \<open>int\<close>.
\<close>

lemma main_pi_p_rechaza:
  assumes "sint (atoi a2) \<le> 0"
  shows "main_pi_p atoi ar en (prog # a1 # a2 # resto) =
     ((if sint (atoi a1) \<le> 0 then [Advertencia_hilos_invalido (sint (atoi a1))] else []) @
      [Error_valor_n, Uso prog], EXIT_FAILURE)"
  using assms by (simp add: main_pi_p_def Let_def)

lemma atoi_glibc_ejemplos:
  "sint (atoi_glibc ''abc'') = 0"
  "sint (atoi_glibc ''0'') = 0"
  "sint (atoi_glibc ''-3'') = - 3"
  "sint (atoi_glibc ''-5'') = - 5"
  "atoi_glibc ''1'' = 1"
  "sint (atoi_glibc ''2147483648'') = - 2147483648"
  "sint (atoi_glibc ''4294967297'') = 1"
  by (simp_all add: atoi_glibc_def strtol_base10_def es_espacio_def es_digito_def)

lemma main_pi_p_calcula:
  assumes "0 < sint (atoi a1)" and "0 < sint (atoi a2)"
    and "calcular_pi_paralelo ar en (sint (atoi a2)) (sint (atoi a1)) = (traza, Inr v)"
  shows "main_pi_p atoi ar en (prog # a1 # a2 # resto) =
     (traza @
      [Imprime_n (sint (atoi a2)), Imprime_H (sint (atoi a1)), Imprime_pi v,
       Imprime_error_absoluto (d_fabs ar (d_resta ar v (d_pi_referencia ar))),
       Imprime_tiempo (d_resta ar (tiempo_fin en) (tiempo_inicio en))],
      EXIT_SUCCESS)"
  using assms sint_int32_max [of "atoi a2"] by (simp add: main_pi_p_def Let_def)

lemma calcular_3_1:
  "calcular_pi_paralelo aritmetica_real entorno_sin_fallos 3 1 =
     ([Crear 0 \<lparr>indice_inicio = 0, indice_fin = 3, paso = 1 / 3\<rparr>, Join 0],
      Inr (106672 / 33855))"
  using calcular_pi_paralelo_general [of 3 1 entorno_sin_fallos aritmetica_real]
  by (simp add: entorno_sin_fallos_def suma_parcial_de_def elemento_def funcion_integrando_def
        aritmetica_real_def upto_rec1 presente_def avisos_def)

lemma calcular_1_2:
  "calcular_pi_paralelo aritmetica_real entorno_sin_fallos 1 2 =
     ([Crear 0 \<lparr>indice_inicio = 0, indice_fin = 1, paso = 1\<rparr>,
       Crear 1 \<lparr>indice_inicio = 1, indice_fin = 1, paso = 1\<rparr>, Join 0, Join 1],
      Inr (16 / 5))"
  using calcular_pi_paralelo_general [of 1 2 entorno_sin_fallos aritmetica_real]
  by (simp add: entorno_sin_fallos_def suma_parcial_de_def elemento_def funcion_integrando_def
        aritmetica_real_def upto_rec1 presente_def avisos_def)

lemma atoi_glibc_mas_ejemplos:
  "sint (atoi_glibc ''3'') = 3" "sint (atoi_glibc ''1'') = 1" "sint (atoi_glibc ''2'') = 2"
  "sint (atoi_glibc ''4'') = 4"
  by (simp_all add: atoi_glibc_def strtol_base10_def es_espacio_def es_digito_def)

lemma n_ejemplos_rechazados:
  "main_pi_p atoi_glibc ar en [prog, ''4'', ''0''] = ([Error_valor_n, Uso prog], EXIT_FAILURE)"
  "main_pi_p atoi_glibc ar en [prog, ''4'', ''-5''] = ([Error_valor_n, Uso prog], EXIT_FAILURE)"
  "main_pi_p atoi_glibc ar en [prog, ''4'', ''2147483648''] =
     ([Error_valor_n, Uso prog], EXIT_FAILURE)"
  by (simp_all add: main_pi_p_rechaza atoi_glibc_ejemplos atoi_glibc_mas_ejemplos)

text \<open>
  When \<open>atoi\<close> returns zero or a negative number for the first argument (zero is what
  it returns for an argument that is not a number), \<open>main\<close> prints the warning and then
  does, prints and returns exactly what it does when the first argument is read as \<open>1\<close>.
\<close>

lemma hilos_no_positivos_leidos:
  assumes "sint (atoi a1) \<le> 0" and "atoi uno = 1"
  shows "main_pi_p atoi ar en (prog # a1 # resto) =
     (Advertencia_hilos_invalido (sint (atoi a1)) # fst (main_pi_p atoi ar en (prog # uno # resto)),
      snd (main_pi_p atoi ar en (prog # uno # resto)))"
  using assms
  by (simp add: main_pi_p_def Let_def split: prod.splits sum.splits)

lemma hilos_no_numericos_ejemplo:
  "main_pi_p atoi_glibc aritmetica_real entorno_sin_fallos [''./pi_p'', ''abc'', ''3''] =
     ([Advertencia_hilos_invalido 0,
       Crear 0 \<lparr>indice_inicio = 0, indice_fin = 3, paso = 1 / 3\<rparr>, Join 0,
       Imprime_n 3, Imprime_H 1, Imprime_pi (106672 / 33855),
       Imprime_error_absoluto (62676142543509982369444247 / 6771000000000000000000000000),
       Imprime_tiempo 1],
      EXIT_SUCCESS)"
proof -
  have "main_pi_p atoi_glibc aritmetica_real entorno_sin_fallos [''./pi_p'', ''1'', ''3''] =
     ([Crear 0 \<lparr>indice_inicio = 0, indice_fin = 3, paso = 1 / 3\<rparr>, Join 0] @
      [Imprime_n 3, Imprime_H 1, Imprime_pi (106672 / 33855),
       Imprime_error_absoluto
         (d_fabs aritmetica_real (d_resta aritmetica_real (106672 / 33855)
            (d_pi_referencia aritmetica_real))),
       Imprime_tiempo (d_resta aritmetica_real (tiempo_fin entorno_sin_fallos)
          (tiempo_inicio entorno_sin_fallos))],
      EXIT_SUCCESS)"
    using main_pi_p_calcula [of atoi_glibc "''1''" "''3''" aritmetica_real entorno_sin_fallos
        "[Crear 0 \<lparr>indice_inicio = 0, indice_fin = 3, paso = 1 / 3\<rparr>, Join 0]"
        "106672 / 33855" "''./pi_p''" "[]"]
    by (simp only: atoi_glibc_mas_ejemplos calcular_3_1)
  then have "main_pi_p atoi_glibc aritmetica_real entorno_sin_fallos [''./pi_p'', ''1'', ''3''] =
     ([Crear 0 \<lparr>indice_inicio = 0, indice_fin = 3, paso = 1 / 3\<rparr>, Join 0,
       Imprime_n 3, Imprime_H 1, Imprime_pi (106672 / 33855),
       Imprime_error_absoluto (62676142543509982369444247 / 6771000000000000000000000000),
       Imprime_tiempo 1],
      EXIT_SUCCESS)"
    by (simp add: aritmetica_real_def entorno_sin_fallos_def)
  with hilos_no_positivos_leidos [of atoi_glibc "''abc''" "''1''" aritmetica_real entorno_sin_fallos
      "''./pi_p''" "[''3'']"]
  show ?thesis
    by (simp add: atoi_glibc_ejemplos)
qed

lemma atoi_glibc_negativos:
  "sint (atoi_glibc ''-4294967294'') = 2"
  "sint (atoi_glibc ''-4294967295'') = 1"
  by (simp_all add: atoi_glibc_def strtol_base10_def es_espacio_def es_digito_def)

lemma calcular_3_2:
  "calcular_pi_paralelo aritmetica_real entorno_sin_fallos 3 2 =
     ([Crear 0 \<lparr>indice_inicio = 0, indice_fin = 2, paso = 1 / 3\<rparr>,
       Crear 1 \<lparr>indice_inicio = 2, indice_fin = 3, paso = 1 / 3\<rparr>, Join 0, Join 1],
      Inr (106672 / 33855))"
  using calcular_pi_paralelo_general [of 3 2 entorno_sin_fallos aritmetica_real]
  by (simp add: entorno_sin_fallos_def suma_parcial_de_def elemento_def funcion_integrando_def
        aritmetica_real_def upto_rec1 presente_def avisos_def)

text \<open>
  Claim C5 says that for every \<open>h \<le> 0\<close> given as the first argument the program prints
  the warning, uses one thread and gives the result of \<open>h = 1\<close>.  The program does so
  whenever \<open>atoi\<close> returns zero or a negative number, as shown above, but not for a negative
  argument whose low 32 bits are a positive number: the GNU \<open>atoi\<close> reads
  \<open>-4294967294 = 2 - 2\<^sup>3\<^sup>2\<close> as \<open>2\<close>, the test \<open>numero_hilos <= 0\<close> of \<open>main\<close> is false, no
  warning is printed and the computation runs with two threads.
\<close>

theorem hilos_negativos_sin_corregir:
  "sint (atoi_glibc ''-4294967294'') = 2 \<and>
   main_pi_p atoi_glibc aritmetica_real entorno_sin_fallos [''./pi_p'', ''-4294967294'', ''3''] =
     ([Crear 0 \<lparr>indice_inicio = 0, indice_fin = 2, paso = 1 / 3\<rparr>,
       Crear 1 \<lparr>indice_inicio = 2, indice_fin = 3, paso = 1 / 3\<rparr>, Join 0, Join 1,
       Imprime_n 3, Imprime_H 2, Imprime_pi (106672 / 33855),
       Imprime_error_absoluto (62676142543509982369444247 / 6771000000000000000000000000),
       Imprime_tiempo 1],
      EXIT_SUCCESS)"
proof -
  have "main_pi_p atoi_glibc aritmetica_real entorno_sin_fallos
          [''./pi_p'', ''-4294967294'', ''3''] =
     ([Crear 0 \<lparr>indice_inicio = 0, indice_fin = 2, paso = 1 / 3\<rparr>,
       Crear 1 \<lparr>indice_inicio = 2, indice_fin = 3, paso = 1 / 3\<rparr>, Join 0, Join 1] @
      [Imprime_n 3, Imprime_H 2, Imprime_pi (106672 / 33855),
       Imprime_error_absoluto
         (d_fabs aritmetica_real (d_resta aritmetica_real (106672 / 33855)
            (d_pi_referencia aritmetica_real))),
       Imprime_tiempo (d_resta aritmetica_real (tiempo_fin entorno_sin_fallos)
          (tiempo_inicio entorno_sin_fallos))],
      EXIT_SUCCESS)"
    using main_pi_p_calcula [of atoi_glibc "''-4294967294''" "''3''" aritmetica_real
        entorno_sin_fallos
        "[Crear 0 \<lparr>indice_inicio = 0, indice_fin = 2, paso = 1 / 3\<rparr>,
          Crear 1 \<lparr>indice_inicio = 2, indice_fin = 3, paso = 1 / 3\<rparr>, Join 0, Join 1]"
        "106672 / 33855" "''./pi_p''" "[]"]
    by (simp only: atoi_glibc_mas_ejemplos atoi_glibc_negativos calcular_3_2)
  then show ?thesis
    by (simp add: aritmetica_real_def entorno_sin_fallos_def atoi_glibc_negativos)
qed

text \<open>
  The same happens to \<open>n\<close>: the negative argument \<open>-4294967295\<close> is read as \<open>1\<close> and
  accepted.
\<close>

lemma n_negativo_aceptado:
  "\<exists>traza. main_pi_p atoi_glibc aritmetica_real entorno_sin_fallos
              [''./pi_p'', ''2'', ''-4294967295''] = (traza, EXIT_SUCCESS)"
  using main_pi_p_calcula [of atoi_glibc "''2''" "''-4294967295''" aritmetica_real
        entorno_sin_fallos _ "16 / 5" "''./pi_p''" "[]"] calcular_1_2
  by (simp add: atoi_glibc_mas_ejemplos atoi_glibc_negativos)

text \<open>
  Claim C4 says that every value of \<open>n\<close> on the command line that is not positive or is
  greater than \<open>2\<^sup>3\<^sup>1 - 1\<close> is rejected before anything is computed.  The program does
  reject the values that \<open>atoi\<close> returns as zero or negative, as shown above, but not an
  argument above \<open>2\<^sup>3\<^sup>1 - 1\<close> whose low 32 bits are a positive number: the GNU \<open>atoi\<close>
  reads \<open>4294967297 = 2\<^sup>3\<^sup>2 + 1\<close> as \<open>1\<close>, the range test of \<open>main\<close> accepts it, and the
  computation runs with \<open>n = 1\<close> and ends successfully.
\<close>

theorem n_mayor_que_INT_MAX_aceptado:
  "sint (atoi_glibc ''4294967297'') = 1 \<and>
   main_pi_p atoi_glibc aritmetica_real entorno_sin_fallos [''./pi_p'', ''2'', ''4294967297''] =
     ([Crear 0 \<lparr>indice_inicio = 0, indice_fin = 1, paso = 1\<rparr>,
       Crear 1 \<lparr>indice_inicio = 1, indice_fin = 1, paso = 1\<rparr>, Join 0, Join 1,
       Imprime_n 1, Imprime_H 2, Imprime_pi (16 / 5),
       Imprime_error_absoluto (58407346410206761537357 / 1000000000000000000000000),
       Imprime_tiempo 1],
      EXIT_SUCCESS)"
proof -
  have "main_pi_p atoi_glibc aritmetica_real entorno_sin_fallos
          [''./pi_p'', ''2'', ''4294967297''] =
     ([Crear 0 \<lparr>indice_inicio = 0, indice_fin = 1, paso = 1\<rparr>,
       Crear 1 \<lparr>indice_inicio = 1, indice_fin = 1, paso = 1\<rparr>, Join 0, Join 1] @
      [Imprime_n 1, Imprime_H 2, Imprime_pi (16 / 5),
       Imprime_error_absoluto
         (d_fabs aritmetica_real (d_resta aritmetica_real (16 / 5)
            (d_pi_referencia aritmetica_real))),
       Imprime_tiempo (d_resta aritmetica_real (tiempo_fin entorno_sin_fallos)
          (tiempo_inicio entorno_sin_fallos))],
      EXIT_SUCCESS)"
    using main_pi_p_calcula [of atoi_glibc "''2''" "''4294967297''" aritmetica_real
        entorno_sin_fallos
        "[Crear 0 \<lparr>indice_inicio = 0, indice_fin = 1, paso = 1\<rparr>,
          Crear 1 \<lparr>indice_inicio = 1, indice_fin = 1, paso = 1\<rparr>, Join 0, Join 1]"
        "16 / 5" "''./pi_p''" "[]"]
    by (simp only: atoi_glibc_mas_ejemplos atoi_glibc_ejemplos calcular_1_2)
  then show ?thesis
    by (simp add: aritmetica_real_def entorno_sin_fallos_def atoi_glibc_ejemplos)
qed

section \<open>The worker of fibonacci.c\<close>

lemma F_paso: "2 \<le> i \<Longrightarrow> F (nat i) = F (nat (i - 1)) + F (nat (i - 2))" for i :: int
proof -
  assume "2 \<le> i"
  then have "nat i = Suc (Suc (nat (i - 2)))" "nat (i - 1) = Suc (nat (i - 2))"
    by linarith+
  then show ?thesis by simp
qed

lemma bucle_fibonacci_correcto:
  "2 \<le> i \<Longrightarrow> i \<le> cantidad \<Longrightarrow> nat cantidad \<le> length arreglo \<Longrightarrow>
   (\<forall>k < nat i. arreglo ! k = word_of_nat (F k)) \<Longrightarrow>
   \<exists>r. bucle_fibonacci arreglo cantidad i = Some r \<and> length r = length arreglo \<and>
       (\<forall>k < nat cantidad. r ! k = word_of_nat (F k)) \<and>
       (\<forall>k. nat cantidad \<le> k \<longrightarrow> r ! k = arreglo ! k)"
proof (induction arreglo cantidad i rule: bucle_fibonacci.induct)
  case (1 arreglo cantidad i)
  show ?case
  proof (cases "i < cantidad")
    case False
    with "1.prems" have "i = cantidad" by simp
    with "1.prems" show ?thesis
      by (subst bucle_fibonacci.simps) simp
  next
    case True
    let ?a = "arreglo ! nat (i - 1)" and ?b = "arreglo ! nat (i - 2)"
    let ?arr = "arreglo[nat i := ?a + ?b]"
    from True "1.prems" have rango: "nat i < length arreglo" "nat (i - 1) < nat i" "nat (i - 2) < nat i"
      by linarith+
    have la: "leer arreglo (i - 1) = Some ?a" and lb: "leer arreglo (i - 2) = Some ?b"
      using rango "1.prems"(1) by (simp_all add: leer_def)
    have es: "escribir arreglo i (?a + ?b) = Some ?arr"
      using rango "1.prems"(1) by (simp add: escribir_def)
    have suma: "?a + ?b = word_of_nat (F (nat i))"
      using "1.prems"(4) rango F_paso [OF "1.prems"(1)] by simp
    have inv: "\<forall>k < nat (i + 1). ?arr ! k = word_of_nat (F k)"
    proof (intro allI impI)
      fix k assume "k < nat (i + 1)"
      then have "k < nat i \<or> k = nat i" using "1.prems"(1) by linarith
      then show "?arr ! k = word_of_nat (F k)"
        using "1.prems"(4) rango(1) suma by (auto simp: nth_list_update)
    qed
    have "\<exists>r. bucle_fibonacci ?arr cantidad (i + 1) = Some r \<and> length r = length ?arr \<and>
       (\<forall>k < nat cantidad. r ! k = word_of_nat (F k)) \<and>
       (\<forall>k. nat cantidad \<le> k \<longrightarrow> r ! k = ?arr ! k)"
      using "1.IH" [OF True, of ?a ?b ?arr] la lb es True "1.prems" inv by simp
    then obtain r where r: "bucle_fibonacci ?arr cantidad (i + 1) = Some r" "length r = length ?arr"
       "\<forall>k < nat cantidad. r ! k = word_of_nat (F k)" "\<forall>k. nat cantidad \<le> k \<longrightarrow> r ! k = ?arr ! k"
      by blast
    have "bucle_fibonacci arreglo cantidad i = Some r"
      using True la lb es r(1) by (subst bucle_fibonacci.simps) simp
    moreover have "\<forall>k. nat cantidad \<le> k \<longrightarrow> r ! k = arreglo ! k"
      using r(4) True "1.prems"(1) by (auto simp: nth_list_update)
    ultimately show ?thesis using r(2,3) by simp
  qed
qed


lemma trabajador_fibonacci_F:
  assumes "1 \<le> N" and "nat N \<le> length arreglo"
  shows "\<exists>r. trabajador_fibonacci arreglo N = Some r \<and> length r = length arreglo \<and>
       (\<forall>k < nat N. r ! k = word_of_nat (F k)) \<and>
       (\<forall>k. nat N \<le> k \<longrightarrow> r ! k = arreglo ! k)"
proof (cases "N = 1")
  case True
  with assms have "trabajador_fibonacci arreglo N = Some (arreglo[0 := 0])"
    by (simp add: trabajador_fibonacci_def escribir_def bucle_fibonacci.simps Suc_le_eq)
  with True assms show ?thesis by (simp add: Suc_le_eq)
next
  case False
  with assms have N: "2 \<le> N" by simp
  let ?arr = "arreglo[0 := 0, 1 := 1]"
  from N assms have largo: "2 \<le> length arreglo" by linarith
  then have largo': "0 < length arreglo" "1 < length arreglo" "arreglo \<noteq> []" by auto
  have inv: "\<forall>k < nat 2. ?arr ! k = word_of_nat (F k)"
  proof (intro allI impI)
    fix k :: nat assume "k < nat 2"
    then have "k = 0 \<or> k = 1" by auto
    with largo' show "?arr ! k = word_of_nat (F k)" by (auto simp: nth_list_update)
  qed
  have "\<exists>r. bucle_fibonacci ?arr N 2 = Some r \<and> length r = length ?arr \<and>
       (\<forall>k < nat N. r ! k = word_of_nat (F k)) \<and> (\<forall>k. nat N \<le> k \<longrightarrow> r ! k = ?arr ! k)"
    using N assms(2) inv by (intro bucle_fibonacci_correcto) simp_all
  then obtain r where r: "bucle_fibonacci ?arr N 2 = Some r" "length r = length ?arr"
       "\<forall>k < nat N. r ! k = word_of_nat (F k)" "\<forall>k. nat N \<le> k \<longrightarrow> r ! k = ?arr ! k"
    by blast
  have "trabajador_fibonacci arreglo N = Some r"
    using N largo' r(1) by (simp add: trabajador_fibonacci_def escribir_def)
  moreover have "\<forall>k. nat N \<le> k \<longrightarrow> r ! k = arreglo ! k"
    using r(4) N by auto
  ultimately show ?thesis using r(2,3) by simp
qed

text \<open>
  Claim C10.  For \<open>N \<ge> 1\<close> and an array of at least \<open>N\<close> elements, the worker ends
  without leaving the array, and afterwards element \<open>0\<close> is \<open>0\<close>, element \<open>1\<close> is \<open>1\<close>
  (when \<open>N \<ge> 2\<close>), every element \<open>2 \<le> i < N\<close> is the sum modulo \<open>2\<^sup>6\<^sup>4\<close> of the two
  before it, element \<open>i < N\<close> is the Fibonacci number \<open>F i\<close> modulo \<open>2\<^sup>6\<^sup>4\<close>, and every
  element from index \<open>N\<close> on is what it was.
\<close>

theorem trabajador_fibonacci_correcto:
  assumes "1 \<le> N" and "nat N \<le> length arreglo"
  shows "\<exists>r. trabajador_fibonacci arreglo N = Some r \<and> length r = length arreglo \<and>
       r ! 0 = 0 \<and> (2 \<le> N \<longrightarrow> r ! 1 = 1) \<and>
       (\<forall>i. 2 \<le> i \<and> i < nat N \<longrightarrow>
            r ! i = r ! (i - 1) + r ! (i - 2) \<and>
            unat (r ! i) = (unat (r ! (i - 1)) + unat (r ! (i - 2))) mod 2 ^ 64) \<and>
       (\<forall>i < nat N. unat (r ! i) = F i mod 2 ^ 64) \<and>
       (\<forall>i. nat N \<le> i \<and> i < length arreglo \<longrightarrow> r ! i = arreglo ! i)"
proof -
  from trabajador_fibonacci_F [OF assms] obtain r where
    r: "trabajador_fibonacci arreglo N = Some r" "length r = length arreglo"
       "\<forall>k < nat N. r ! k = word_of_nat (F k)" "\<forall>k. nat N \<le> k \<longrightarrow> r ! k = arreglo ! k"
    by blast
  have cero: "r ! 0 = 0" using r(3) assms(1) by simp
  have uno: "2 \<le> N \<longrightarrow> r ! 1 = 1"
  proof
    assume "2 \<le> N"
    then have "(1::nat) < nat N" by simp
    with r(3) have "r ! 1 = word_of_nat (F 1)" by blast
    then show "r ! 1 = 1" by simp
  qed
  have rec: "\<forall>i. 2 \<le> i \<and> i < nat N \<longrightarrow>
            r ! i = r ! (i - 1) + r ! (i - 2) \<and>
            unat (r ! i) = (unat (r ! (i - 1)) + unat (r ! (i - 2))) mod 2 ^ 64"
  proof (intro allI impI)
    fix i :: nat assume i: "2 \<le> i \<and> i < nat N"
    then obtain m where m: "i = Suc (Suc m)"
      by (metis Suc_le_D numeral_2_eq_2 Suc_le_mono)
    with i r(3) have "r ! i = word_of_nat (F i)" "r ! (i - 1) = word_of_nat (F (Suc m))"
       "r ! (i - 2) = word_of_nat (F m)"
      by simp_all
    with m have eq: "r ! i = r ! (i - 1) + r ! (i - 2)" by simp
    then show "r ! i = r ! (i - 1) + r ! (i - 2) \<and>
            unat (r ! i) = (unat (r ! (i - 1)) + unat (r ! (i - 2))) mod 2 ^ 64"
      by (simp add: unat_word_ariths)
  qed
  have val: "\<forall>i < nat N. unat (r ! i) = F i mod 2 ^ 64"
    using r(3) by (simp add: unat_of_nat)
  have resto: "\<forall>i. nat N \<le> i \<and> i < length arreglo \<longrightarrow> r ! i = arreglo ! i"
    using r(4) by blast
  from r(1,2) cero uno rec val resto show ?thesis by blast
qed

theorem trabajador_fibonacci_correcto_witness:
  "(1::int) \<le> 5 \<and> nat 5 \<le> length [7, 7, 7, 7, 7, 9 :: tipo_fibonacci] \<and>
   (\<exists>r. trabajador_fibonacci [7, 7, 7, 7, 7, 9] 5 = Some r \<and> length r = 6 \<and>
       r ! 0 = 0 \<and> r ! 1 = 1 \<and> r ! 2 = r ! 1 + r ! 0 \<and>
       unat (r ! 4) = F 4 mod 2 ^ 64 \<and> r ! 5 = 9)"
proof -
  have h: "(1::int) \<le> 5" "nat 5 \<le> length [7, 7, 7, 7, 7, 9 :: tipo_fibonacci]" by simp_all
  from trabajador_fibonacci_correcto [OF h] obtain r where
    r: "trabajador_fibonacci [7, 7, 7, 7, 7, 9] 5 = Some r" "length r = length [7, 7, 7, 7, 7, 9 :: tipo_fibonacci]"
       "r ! 0 = 0" "2 \<le> (5::int) \<longrightarrow> r ! 1 = 1"
       "\<forall>i. 2 \<le> i \<and> i < nat 5 \<longrightarrow> r ! i = r ! (i - 1) + r ! (i - 2) \<and>
            unat (r ! i) = (unat (r ! (i - 1)) + unat (r ! (i - 2))) mod 2 ^ 64"
       "\<forall>i < nat 5. unat (r ! i) = F i mod 2 ^ 64"
       "\<forall>i. nat 5 \<le> i \<and> i < length [7, 7, 7, 7, 7, 9 :: tipo_fibonacci] \<longrightarrow> r ! i = [7, 7, 7, 7, 7, 9] ! i"
    by blast
  from r(5) have "r ! 2 = r ! 1 + r ! 0" by simp
  moreover from r(6) have "unat (r ! 4) = F 4 mod 2 ^ 64" by simp
  moreover from r(7) have "r ! 5 = 9" by simp
  ultimately show ?thesis using h r(1,2,3,4) by auto
qed

end
